theory Spec2Isabelle
  imports Main
begin

section \<open>Power-DI: the container of \<^verbatim>\<open>index.js\<close> and the helpers of \<^verbatim>\<open>util.js\<close>\<close>

text \<open>
  The embedding follows the two source files function by function.

  \<^item> Strings are \<open>string\<close>: lists of 8-bit code units. The regular expressions of
    \<^verbatim>\<open>util.js\<close> only name ASCII characters, so a code unit outside ASCII is
    never matched by a character class and is copied as it is.
  \<^item> \<^verbatim>\<open>this.container\<close> is a map from names to definitions. The four object
    shapes that \<^verbatim>\<open>_setDependency\<close> is called with are the four constructors of
    \<open>dependency\<close>; a flag or field that a shape does not have reads \<^verbatim>\<open>undefined\<close>
    in the source and is the corresponding missing case here. The object is created as
    \<^verbatim>\<open>{}\<close>, so reading a name that is not stored finds the property of that name that
    every object inherits, where there is one (\<open>lookup\<close>).
  \<^item> A \<^verbatim>\<open>throw\<close> is a result \<open>Inl e\<close>; every operation returns the container
    next to its result, because an exception leaves the writes made before it in place.
  \<^item> \<^verbatim>\<open>new\<close> allocates the next free address of a heap that records, for every object,
    its class and the positional arguments it was constructed with, and then runs the body
    of the constructor. Two objects are identical exactly when their addresses are equal.
  \<^item> The bodies of factories and constructors are the caller's code, and they run in the
    middle of \<^verbatim>\<open>get\<close>: a factory is handed the container, and a constructor can be
    handed it as an argument or find it in its scope. A parameter \<open>fe\<close> of \<open>get\<close>
    gives the code of every function value and of every class: a \<open>script\<close>, which
    returns, throws, does not return, calls \<^verbatim>\<open>get\<close> or another public method of the
    container and goes on with what the call returned or threw, or creates an object and
    goes on with it. Everything else that the caller's code does stays inside the script;
    it is taken to use the container through these methods and not to write its fields.
  \<^item> \<^verbatim>\<open>require.resolve\<close> and \<^verbatim>\<open>require\<close> are a map from module names to loaded
    modules; the code of a module that is loaded is taken not to reach the container.
  \<^item> \<^verbatim>\<open>get\<close> recurses without a cycle guard, so it takes fuel: \<open>None\<close> is a call that
    has not returned within the given depth.
  \<^item> The debug sink is a function of the caller that is called with a string where the
    container traces. The configuration records whether one is set, and it is not run: the
    theorems on what resolution changes and on when it returns are for a container without
    one. \<^verbatim>\<open>seenClasses\<close> is only appended to and never read, and is left out.
\<close>

subsection \<open>Values, classes, definitions\<close>

record jsclass =
  name :: string
  source :: string

datatype jsval =
    Undefined
  | Null
  | Bool bool
  | Num int
  | Str string
  | Obj nat
  | FuncV nat
  | ClassV jsclass
  | ModuleV string
  | ContainerV

fun truthy :: "jsval \<Rightarrow> bool" where
  "truthy Undefined = False"
| "truthy Null = False"
| "truthy (Bool b) = b"
| "truthy (Num n) = (n \<noteq> 0)"
| "truthy (Str s) = (s \<noteq> [])"
| "truthy _ = True"

text \<open>
  What \<^verbatim>\<open>new\<close> takes from a constructor that returns something: an object, not a
  primitive value. A loaded module is taken to be an object or a function.
\<close>

fun is_object :: "jsval \<Rightarrow> bool" where
  "is_object (Obj a) = True"
| "is_object (FuncV f) = True"
| "is_object (ClassV cls) = True"
| "is_object (ModuleV m) = True"
| "is_object ContainerV = True"
| "is_object _ = False"

type_synonym fid = nat

text \<open>
  \<open>ClassDef args file isSingleton instance\<close> is
  \<^verbatim>\<open>{args, file, isClass: true, isSingleton}\<close> with the \<^verbatim>\<open>instance\<close> that
  \<^verbatim>\<open>get\<close> adds later; \<open>args = None\<close> is \<^verbatim>\<open>args: null\<close>.
\<close>

datatype dependency =
    ClassDef "string list option" jsclass bool "jsval option"
  | ConstantDef jsval
  | FunctionDef jsval
  | FactoryDef jsval

datatype error =
    DuplicateNameError string
  | NotFoundError string
  | WrongKindError string
  | ExternalModuleNotFoundError string
  | CannotFindModule string
  | TypeError string

text \<open>
  The source throws plain \<^verbatim>\<open>Error\<close>s; the constructors stand for the messages
  \<^verbatim>\<open>Duplicate dependency found\<close>, \<^verbatim>\<open>Container cannot find user module\<close>,
  \<^verbatim>\<open>Cannot return class for dependency\<close> (both variants) and
  \<^verbatim>\<open>Container could not find NPM module\<close>, each with the name it is about.
  \<open>CannotFindModule\<close> is the error of \<^verbatim>\<open>require\<close> itself and \<open>TypeError\<close> the
  one of calling or constructing a value that is not a function and of reading a field of
  \<^verbatim>\<open>undefined\<close>.
\<close>

record config =
  prefix :: string
  npmPrefix :: string
  nodeModulePrefix :: "string option"
  debug :: bool

record Container =
  container :: "string \<rightharpoonup> dependency"
  config :: config

record world =
  self :: Container
  heap :: "(jsclass \<times> jsval list) list"
  node_modules :: "string \<rightharpoonup> jsval"

subsection \<open>\<^verbatim>\<open>util.js\<close>\<close>

definition upper_or_digit :: "char \<Rightarrow> bool" where
  "upper_or_digit c \<longleftrightarrow> c \<in> set ''ABCDEFGHIJKLMNOPQRSTUVWXYZ0123456789''"

text \<open>
  \<^verbatim>\<open>toLowerCase\<close> on the characters that the two regular expressions hand to it or
  compare without regard to case: the ASCII letters.
\<close>

definition toLowerCase :: "char \<Rightarrow> char" where
  "toLowerCase c =
     (case map_of (zip ''ABCDEFGHIJKLMNOPQRSTUVWXYZ'' ''abcdefghijklmnopqrstuvwxyz'') c of
        Some l \<Rightarrow> l
      | None \<Rightarrow> c)"

text \<open>
  \<^verbatim>\<open>str.replace(/[A-Z0-9]+/g, m => '-' + m.toLowerCase())\<close>: scanning from the left, a
  character of the class starts a match, the match is the longest run of such characters,
  and the scan goes on behind it.
\<close>

function kebabCase :: "string \<Rightarrow> string" where
  "kebabCase [] = []"
| "kebabCase (c # cs) =
     (if upper_or_digit c
      then CHR ''-'' # map toLowerCase (takeWhile upper_or_digit (c # cs))
             @ kebabCase (dropWhile upper_or_digit (c # cs))
      else c # kebabCase cs)"
  by pat_completeness auto
termination
  by (relation "measure length") (auto intro: le_imp_less_Suc length_dropWhile_le)

text \<open>\<^verbatim>\<open>dashName.replace(new RegExp('-', 'g'), '.')\<close>\<close>

definition dotCase :: "string \<Rightarrow> string" where
  "dotCase s = map (\<lambda>c. if c = CHR ''-'' then CHR ''.'' else c) s"

definition nodeModuleExists :: "world \<Rightarrow> string \<Rightarrow> bool" where
  "nodeModuleExists w n \<longleftrightarrow> node_modules w n \<noteq> None"

definition require :: "world \<Rightarrow> string \<Rightarrow> error + jsval" where
  "require w n = (case node_modules w n of Some m \<Rightarrow> Inr m | None \<Rightarrow> Inl (CannotFindModule n))"

text \<open>
  \<^verbatim>\<open>func.toString().match(/constructor\((.+)\)/i)\<close>. A match starts at the leftmost
  position where the text reads \<^verbatim>\<open>constructor(\<close> in any letter case and the rest of that
  line has a closing parenthesis behind at least one character; the group \<^verbatim>\<open>(.+)\<close> is
  greedy, so it runs up to the last closing parenthesis of the line. The dot does not match
  a line terminator.
\<close>

definition lineTerminator :: "char \<Rightarrow> bool" where
  "lineTerminator c \<longleftrightarrow> c = CHR 0x0A \<or> c = CHR 0x0D"

fun upto_last_paren :: "string \<Rightarrow> string option" where
  "upto_last_paren [] = None"
| "upto_last_paren (c # cs) =
     (case upto_last_paren cs of
        Some g \<Rightarrow> Some (c # g)
      | None \<Rightarrow> if c = CHR '')'' then Some [] else None)"

definition group1 :: "string \<Rightarrow> string option" where
  "group1 line = (case line of [] \<Rightarrow> None | c # cs \<Rightarrow> map_option (Cons c) (upto_last_paren cs))"

definition match_at :: "string \<Rightarrow> string option" where
  "match_at s =
     (if map toLowerCase (take 12 s) = ''constructor(''
      then group1 (takeWhile (\<lambda>c. \<not> lineTerminator c) (drop 12 s))
      else None)"

fun regex_match :: "string \<Rightarrow> string option" where
  "regex_match [] = None"
| "regex_match (c # cs) =
     (case match_at (c # cs) of Some g \<Rightarrow> Some g | None \<Rightarrow> regex_match cs)"

fun split_comma :: "string \<Rightarrow> string list" where
  "split_comma [] = [[]]"
| "split_comma (c # cs) =
     (if c = CHR '','' then [] # split_comma cs
      else (case split_comma cs of p # ps \<Rightarrow> (c # p) # ps | [] \<Rightarrow> [[c]]))"

definition whiteSpace :: "char \<Rightarrow> bool" where
  "whiteSpace c \<longleftrightarrow> c \<in> {CHR 0x09, CHR 0x0A, CHR 0x0B, CHR 0x0C, CHR 0x0D, CHR 0x20, CHR 0xA0}"

definition trim :: "string \<Rightarrow> string" where
  "trim s = rev (dropWhile whiteSpace (rev (dropWhile whiteSpace s)))"

definition getFunctionArgs :: "string \<Rightarrow> string list option" where
  "getFunctionArgs func =
     (case regex_match func of
        Some g \<Rightarrow> Some (map trim (split_comma g))
      | None \<Rightarrow> None)"

subsection \<open>\<^verbatim>\<open>index.js\<close>: construction and registration\<close>

text \<open>
  The argument of the constructor: each key is given or not. The loop copies every given
  key over the defaults; \<^verbatim>\<open>nodeModulePrefix\<close>, the key that \<^verbatim>\<open>get\<close> reads, has no
  default and stays \<^verbatim>\<open>undefined\<close> unless it is given.
\<close>

record given_config =
  given_prefix :: "string option"
  given_npmPrefix :: "string option"
  given_nodeModulePrefix :: "string option"
  given_debug :: "bool option"

definition create :: "given_config \<Rightarrow> Container" where
  "create cfg =
     \<lparr>container = Map.empty,
      config = \<lparr>prefix = (case given_prefix cfg of Some p \<Rightarrow> p | None \<Rightarrow> []),
                npmPrefix = (case given_npmPrefix cfg of Some p \<Rightarrow> p | None \<Rightarrow> []),
                nodeModulePrefix = given_nodeModulePrefix cfg,
                debug = (case given_debug cfg of Some d \<Rightarrow> d | None \<Rightarrow> False)\<rparr>\<rparr>"

text \<open>
  \<^verbatim>\<open>this.container[name]\<close>: the definition stored under the name; or, for the names of
  the properties of \<^verbatim>\<open>Object.prototype\<close>, the inherited function or object, which is
  truthy and has none of the fields of a definition; or \<^verbatim>\<open>undefined\<close>.
\<close>

definition Object_prototype :: "string list" where
  "Object_prototype =
     [''constructor'', ''__defineGetter__'', ''__defineSetter__'', ''hasOwnProperty'',
      ''__lookupGetter__'', ''__lookupSetter__'', ''isPrototypeOf'', ''propertyIsEnumerable'',
      ''toString'', ''valueOf'', ''__proto__'', ''toLocaleString'']"

datatype property = Own dependency | Inherited | Absent

definition lookup :: "Container \<Rightarrow> string \<Rightarrow> property" where
  "lookup c n =
     (case container c n of
        Some dep \<Rightarrow> Own dep
      | None \<Rightarrow> if n \<in> set Object_prototype then Inherited else Absent)"

definition has :: "Container \<Rightarrow> string \<Rightarrow> bool" where
  "has c depName \<longleftrightarrow> lookup c depName \<noteq> Absent"

text \<open>\<^verbatim>\<open>_setDependency\<close>: the check comes before the only write.\<close>

definition setDependency :: "Container \<Rightarrow> string \<Rightarrow> dependency \<Rightarrow> (error + unit) \<times> Container" where
  "setDependency c n dep =
     (if lookup c n \<noteq> Absent then (Inl (DuplicateNameError n), c)
      else (Inr (), c\<lparr>container := (container c)(n \<mapsto> dep)\<rparr>))"

definition addConstant :: "Container \<Rightarrow> string \<Rightarrow> jsval \<Rightarrow> (error + unit) \<times> Container" where
  "addConstant c n v = setDependency c n (ConstantDef v)"

definition addFunction :: "Container \<Rightarrow> string \<Rightarrow> jsval \<Rightarrow> (error + unit) \<times> Container" where
  "addFunction c n func = setDependency c n (FunctionDef func)"

definition addFactory :: "Container \<Rightarrow> string \<Rightarrow> jsval \<Rightarrow> (error + unit) \<times> Container" where
  "addFactory c n fac = setDependency c n (FactoryDef fac)"

text \<open>
  What \<^verbatim>\<open>require(fullPath)\<close> gives \<^verbatim>\<open>addFile\<close>: the exported object with its own
  properties, each present or not. \<open>prototype_constructor\<close> is present when the export is
  a class or a function, and is then the export itself: its name and its source text.
\<close>

record requiredFile =
  prototype_constructor :: "jsclass option"
  ignore :: "jsval option"
  depName_prop :: "string option"
  singleton :: "jsval option"
  factory_prop :: "jsval option"
  constant_prop :: "jsval option"
  function_prop :: "jsval option"

definition read_prop :: "jsval option \<Rightarrow> jsval" where
  "read_prop p = (case p of Some v \<Rightarrow> v | None \<Rightarrow> Undefined)"

text \<open>\<^verbatim>\<open>prefix + name\<close>; an absent name is \<^verbatim>\<open>undefined\<close> and concatenates as that word.\<close>

definition createDepName :: "string option \<Rightarrow> string \<Rightarrow> string" where
  "createDepName n pre = pre @ (case n of Some s \<Rightarrow> s | None \<Rightarrow> ''undefined'')"

definition class_depName :: "requiredFile \<Rightarrow> jsclass \<Rightarrow> string" where
  "class_depName rf cls = (case depName_prop rf of Some s \<Rightarrow> if s \<noteq> [] then s else name cls | None \<Rightarrow> name cls)"

definition addClassDefinition :: "Container \<Rightarrow> requiredFile \<Rightarrow> jsclass \<Rightarrow> string \<Rightarrow> (error + unit) \<times> Container" where
  "addClassDefinition c rf cls pre =
     (let n = createDepName (Some (class_depName rf cls)) pre;
          args = getFunctionArgs (source cls);
          isSingleton = (read_prop (singleton rf) = Undefined \<or> read_prop (singleton rf) = Bool True)
      in setDependency c n (ClassDef args cls isSingleton None))"

definition addConstant_file :: "Container \<Rightarrow> requiredFile \<Rightarrow> string \<Rightarrow> (error + unit) \<times> Container" where
  "addConstant_file c rf pre =
     setDependency c (createDepName (depName_prop rf) pre) (ConstantDef (read_prop (constant_prop rf)))"

definition addFunction_file :: "Container \<Rightarrow> requiredFile \<Rightarrow> string \<Rightarrow> (error + unit) \<times> Container" where
  "addFunction_file c rf pre =
     setDependency c (createDepName (depName_prop rf) pre) (FunctionDef (read_prop (function_prop rf)))"

definition addFactory_file :: "Container \<Rightarrow> requiredFile \<Rightarrow> string \<Rightarrow> (error + unit) \<times> Container" where
  "addFactory_file c rf pre =
     setDependency c (createDepName (depName_prop rf) pre) (FactoryDef (read_prop (factory_prop rf)))"

text \<open>
  \<^verbatim>\<open>addFile\<close>, from the loaded file on; \<open>pre = None\<close> is a call without the second
  argument, which defaults to the configured prefix.
\<close>

definition addFile :: "Container \<Rightarrow> requiredFile \<Rightarrow> string option \<Rightarrow> (error + unit) \<times> Container" where
  "addFile c rf pre =
     (let p = (case pre of Some p \<Rightarrow> p | None \<Rightarrow> prefix (config c)) in
      if ignore rf \<noteq> None \<and> truthy (read_prop (ignore rf)) then (Inr (), c)
      else (case prototype_constructor rf of
              Some cls \<Rightarrow> addClassDefinition c rf cls p
            | None \<Rightarrow>
                if factory_prop rf \<noteq> None then addFactory_file c rf p
                else if constant_prop rf \<noteq> None then addConstant_file c rf p
                else if function_prop rf \<noteq> None then addFunction_file c rf p
                else (Inr (), c)))"

text \<open>
  \<^verbatim>\<open>addDirectory\<close> over a directory that has been read: an entry is a subdirectory, a
  \<^verbatim>\<open>.js\<close> file with what it exports, or another file. The first exception ends the scan.
  \<open>pre\<close> is the prefix that the call passes on to \<^verbatim>\<open>addFile\<close>, the configured one
  where the caller gave none.
\<close>

datatype dirent = Directory "dirent list" | JsFile requiredFile | OtherFile

fun addDirectory :: "Container \<Rightarrow> dirent list \<Rightarrow> string \<Rightarrow> (error + unit) \<times> Container"
and addEntry :: "Container \<Rightarrow> dirent \<Rightarrow> string \<Rightarrow> (error + unit) \<times> Container" where
  "addDirectory c [] pre = (Inr (), c)"
| "addDirectory c (file # files) pre =
     (case addEntry c file pre of
        (Inl e, c') \<Rightarrow> (Inl e, c')
      | (Inr _, c') \<Rightarrow> addDirectory c' files pre)"
| "addEntry c (Directory files) pre = addDirectory c files pre"
| "addEntry c (JsFile rf) pre = addFile c rf (Some pre)"
| "addEntry c OtherFile pre = (Inr (), c)"

subsection \<open>\<^verbatim>\<open>index.js\<close>: resolution\<close>

definition startsWith :: "string \<Rightarrow> string \<Rightarrow> bool" where
  "startsWith s p \<longleftrightarrow> take (length p) s = p"

text \<open>
  \<^verbatim>\<open>this.config.nodeModulePrefix && depName.startsWith(this.config.nodeModulePrefix)\<close>:
  an absent and an empty prefix are both falsy.
\<close>

definition hasNodeModulePrefix :: "Container \<Rightarrow> string \<Rightarrow> bool" where
  "hasNodeModulePrefix c depName \<longleftrightarrow>
     (case nodeModulePrefix (config c) of
        Some p \<Rightarrow> p \<noteq> [] \<and> startsWith depName p
      | None \<Rightarrow> False)"

definition getNodeModule :: "world \<Rightarrow> string \<Rightarrow> error + jsval" where
  "getNodeModule w depName =
     (if nodeModuleExists w depName then require w depName
      else let dashName = kebabCase depName in
        if nodeModuleExists w dashName then require w dashName
        else let dotName = dotCase dashName in
          if nodeModuleExists w dotName then require w dotName
          else Inl (ExternalModuleNotFoundError depName))"

text \<open>
  \<^verbatim>\<open>getClass\<close> returns \<^verbatim>\<open>dependency.file\<close>, which only a class definition has.
\<close>

definition getClass :: "Container \<Rightarrow> string \<Rightarrow> error + jsval" where
  "getClass c depName =
     (if \<not> has c depName then Inl (NotFoundError depName)
      else (case lookup c depName of
          Absent \<Rightarrow> Inl (TypeError depName)
        | Inherited \<Rightarrow> Inr Undefined
        | Own (FunctionDef func) \<Rightarrow> Inl (WrongKindError depName)
        | Own (ConstantDef v) \<Rightarrow> Inl (WrongKindError depName)
        | Own (ClassDef args file isSingleton inst) \<Rightarrow> Inr (ClassV file)
        | Own (FactoryDef fac) \<Rightarrow> Inr Undefined))"

text \<open>
  The public methods of the container other than \<^verbatim>\<open>get\<close>, as the caller's code can
  call them on the container it holds, and what a call returns or throws. The registering
  methods return \<^verbatim>\<open>undefined\<close>.
\<close>

datatype operation =
    Has string
  | GetClass string
  | AddConstant string jsval
  | AddFunction string jsval
  | AddFactory string jsval
  | AddFile requiredFile "string option"
  | AddDirectory "dirent list" "string option"

definition returned :: "(error + unit) \<times> Container \<Rightarrow> (error + jsval) \<times> Container" where
  "returned rc = (case fst rc of Inl e \<Rightarrow> Inl e | Inr u \<Rightarrow> Inr Undefined, snd rc)"

definition call :: "Container \<Rightarrow> operation \<Rightarrow> (error + jsval) \<times> Container" where
  "call c m =
     (case m of
        Has n \<Rightarrow> (Inr (Bool (has c n)), c)
      | GetClass n \<Rightarrow> (getClass c n, c)
      | AddConstant n v \<Rightarrow> returned (addConstant c n v)
      | AddFunction n v \<Rightarrow> returned (addFunction c n v)
      | AddFactory n v \<Rightarrow> returned (addFactory c n v)
      | AddFile rf pre \<Rightarrow> returned (addFile c rf pre)
      | AddDirectory files pre \<Rightarrow>
          returned (addDirectory c files (case pre of Some p \<Rightarrow> p | None \<Rightarrow> prefix (config c))))"

text \<open>
  The body of a function or of a constructor that runs with the container in reach.
  \<open>Get\<close> and \<open>Call\<close> go on with the value or with the exception of the call, so that
  the code may catch it; \<open>rethrow\<close> is the code that does not. \<open>Forever\<close> is code
  that does not return. \<open>Alloc\<close> is an object that the code creates itself. The
  factory \<^verbatim>\<open>function(container) { return new Car(container.get('CarName')); }\<close> of the
  README is \<open>Get ''CarName'' (rethrow (\<lambda>v. Alloc Car [v] Return))\<close>.
\<close>

datatype script =
    Return jsval
  | Throw error
  | Forever
  | Get string "error + jsval \<Rightarrow> script"
  | Call operation "error + jsval \<Rightarrow> script"
  | Alloc jsclass "jsval list" "jsval \<Rightarrow> script"

definition rethrow :: "(jsval \<Rightarrow> script) \<Rightarrow> error + jsval \<Rightarrow> script" where
  "rethrow cont r = (case r of Inl e \<Rightarrow> Throw e | Inr v \<Rightarrow> cont v)"

text \<open>
  The code of the caller: of each function value, called with the container, and of the
  constructor of each class, called with the new object as \<^verbatim>\<open>this\<close> and with the
  arguments.
\<close>

record code =
  function_code :: "fid \<Rightarrow> script"
  constructor_code :: "jsclass \<Rightarrow> jsval \<Rightarrow> jsval list \<Rightarrow> script"

definition allocate :: "world \<Rightarrow> jsclass \<Rightarrow> jsval list \<Rightarrow> jsval \<times> world" where
  "allocate w cls vs = (Obj (length (heap w)), w\<lparr>heap := heap w @ [(cls, vs)]\<rparr>)"

text \<open>
  Running a script against a container whose \<^verbatim>\<open>get\<close> is \<open>g\<close>: a \<^verbatim>\<open>get\<close> that
  does not return keeps the script from returning.
\<close>

type_synonym getter = "world \<Rightarrow> string \<Rightarrow> ((error + jsval) \<times> world) option"

primrec run_script :: "getter \<Rightarrow> script \<Rightarrow> world \<Rightarrow> ((error + jsval) \<times> world) option" where
  "run_script g (Return v) w = Some (Inr v, w)"
| "run_script g (Throw e) w = Some (Inl e, w)"
| "run_script g Forever w = None"
| "run_script g (Get n cont) w =
     (case g w n of
        None \<Rightarrow> None
      | Some (r, w') \<Rightarrow> run_script g (cont r) w')"
| "run_script g (Call m cont) w =
     (let (r, c') = call (self w) m in run_script g (cont r) (w\<lparr>self := c'\<rparr>))"
| "run_script g (Alloc cls vs cont) w =
     (let (obj, w') = allocate w cls vs in run_script g (cont obj) w')"

text \<open>
  \<^verbatim>\<open>new file(...args)\<close>: the object is allocated, the body of the constructor runs with
  it, and the result is the object, or the object that the body returns if it returns one.
\<close>

definition new_object :: "getter \<Rightarrow> code \<Rightarrow> world \<Rightarrow> jsclass \<Rightarrow> jsval list
                            \<Rightarrow> ((error + jsval) \<times> world) option" where
  "new_object g fe w file vs =
     (let (this, w') = allocate w file vs in
      case run_script g (constructor_code fe file this vs) w' of
        None \<Rightarrow> None
      | Some (Inl e, w'') \<Rightarrow> Some (Inl e, w'')
      | Some (Inr v, w'') \<Rightarrow> Some (Inr (if is_object v then v else this), w''))"

definition set_container :: "world \<Rightarrow> string \<Rightarrow> dependency \<Rightarrow> world" where
  "set_container w n dep = w\<lparr>self := (self w)\<lparr>container := (container (self w))(n \<mapsto> dep)\<rparr>\<rparr>"

text \<open>The \<^verbatim>\<open>for\<close> loop over \<^verbatim>\<open>dependency.args\<close>, with \<open>g\<close> for \<^verbatim>\<open>this.get\<close>.\<close>

primrec get_args :: "getter \<Rightarrow> world \<Rightarrow> string list \<Rightarrow> ((error + jsval list) \<times> world) option" where
  "get_args g w [] = Some (Inr [], w)"
| "get_args g w (arg # as) =
     (case g w arg of
        None \<Rightarrow> None
      | Some (Inl e, w') \<Rightarrow> Some (Inl e, w')
      | Some (Inr v, w') \<Rightarrow>
          (case get_args g w' as of
             None \<Rightarrow> None
           | Some (Inl e, w'') \<Rightarrow> Some (Inl e, w'')
           | Some (Inr vs, w'') \<Rightarrow> Some (Inr (v # vs), w'')))"

text \<open>
  The body of \<^verbatim>\<open>get\<close>, with \<open>g\<close> for the calls of \<^verbatim>\<open>get\<close> that are made while it
  runs: by the loop over the parameters, by a factory and by a constructor. An inherited
  property has no flag and no \<^verbatim>\<open>args\<close>, so it reaches the last branch, where its
  \<^verbatim>\<open>file\<close> is \<^verbatim>\<open>undefined\<close> and \<^verbatim>\<open>new\<close> fails. The write
  \<^verbatim>\<open>dependency.instance = instance\<close> goes to the object that was read under
  \<open>depName\<close> at the start, which is still the one stored there: no method of the
  container replaces a stored object. Its other fields are as they were read.
\<close>

definition get_body :: "code \<Rightarrow> getter \<Rightarrow> world \<Rightarrow> string \<Rightarrow> ((error + jsval) \<times> world) option" where
  "get_body fe g w depName =
     (if hasNodeModulePrefix (self w) depName \<or> \<not> has (self w) depName
      then Some (getNodeModule w depName, w)
      else (case lookup (self w) depName of
          Absent \<Rightarrow> Some (Inl (TypeError depName), w)
        | Inherited \<Rightarrow> Some (Inl (TypeError depName), w)
        | Own dependency \<Rightarrow>
            (case dependency of
              FunctionDef func \<Rightarrow> Some (Inr func, w)
            | ConstantDef v \<Rightarrow> Some (Inr v, w)
            | FactoryDef fac \<Rightarrow>
                (case fac of
                   FuncV f \<Rightarrow> run_script g (function_code fe f) w
                 | _ \<Rightarrow> Some (Inl (TypeError depName), w))
            | ClassDef args file isSingleton inst \<Rightarrow>
                if isSingleton \<and> truthy (read_prop inst) then Some (Inr (read_prop inst), w)
                else (case args of
                   Some as \<Rightarrow>
                     (case get_args g w as of
                        None \<Rightarrow> None
                      | Some (Inl e, w') \<Rightarrow> Some (Inl e, w')
                      | Some (Inr vs, w') \<Rightarrow>
                          (case new_object g fe w' file vs of
                             None \<Rightarrow> None
                           | Some (Inl e, w'') \<Rightarrow> Some (Inl e, w'')
                           | Some (Inr obj, w'') \<Rightarrow>
                               Some (Inr obj,
                                     if isSingleton
                                     then set_container w'' depName
                                            (ClassDef args file isSingleton (Some obj))
                                     else w'')))
                 | None \<Rightarrow> new_object g fe w file []))))"

text \<open>
  \<^verbatim>\<open>get\<close> recurses without a guard against cycles. \<open>get fe k\<close> is \<^verbatim>\<open>get\<close>
  with at most \<open>k\<close> calls of itself in progress at a time; \<open>None\<close> is a call that
  needs more.
\<close>

primrec get :: "code \<Rightarrow> nat \<Rightarrow> world \<Rightarrow> string \<Rightarrow> ((error + jsval) \<times> world) option" where
  "get fe 0 w depName = None"
| "get fe (Suc k) w depName = get_body fe (get fe k) w depName"

subsection \<open>What resolution may change, and the dependency graph\<close>

text \<open>
  Between two states of one name's entry: nothing has changed, or a singleton class
  definition with a parameter list, whose \<^verbatim>\<open>instance\<close> field was not set, has got one.
\<close>

definition unchanged_or_cached :: "dependency option \<Rightarrow> dependency option \<Rightarrow> bool" where
  "unchanged_or_cached d d' \<longleftrightarrow>
     d' = d \<or>
     (\<exists>as cls inst obj.
        d = Some (ClassDef (Some as) cls True inst) \<and> \<not> truthy (read_prop inst) \<and>
        d' = Some (ClassDef (Some as) cls True (Some obj)))"

text \<open>
  Between two states of the container: the configuration is the same and every name's entry
  is unchanged or cached (\<open>frame\<close>); or at least every name that was registered
  (\<open>keeps\<close>).
\<close>

definition frame :: "Container \<Rightarrow> Container \<Rightarrow> bool" where
  "frame c c' \<longleftrightarrow> config c' = config c \<and> (\<forall>n. unchanged_or_cached (container c n) (container c' n))"

definition keeps :: "Container \<Rightarrow> Container \<Rightarrow> bool" where
  "keeps c c' \<longleftrightarrow>
     config c' = config c \<and>
     (\<forall>n. container c n = None \<or> unchanged_or_cached (container c n) (container c' n))"

text \<open>
  A relation between the worlds before and after that holds over every step of resolution
  and of the caller's code, as long as that code calls only \<open>allowed\<close> methods.
\<close>

definition step_closed :: "(operation \<Rightarrow> bool) \<Rightarrow> (world \<Rightarrow> world \<Rightarrow> bool) \<Rightarrow> bool" where
  "step_closed allowed R \<longleftrightarrow>
     (\<forall>w. R w w) \<and>
     (\<forall>w w' w''. R w w' \<longrightarrow> R w' w'' \<longrightarrow> R w w'') \<and>
     (\<forall>w cls vs. R w (snd (allocate w cls vs))) \<and>
     (\<forall>w m. allowed m \<longrightarrow> R w (w\<lparr>self := snd (call (self w) m)\<rparr>)) \<and>
     (\<forall>w w' n as cls inst obj.
        R w w' \<longrightarrow> container (self w) n = Some (ClassDef (Some as) cls True inst) \<longrightarrow>
        \<not> truthy (read_prop inst) \<longrightarrow>
        R w (set_container w' n (ClassDef (Some as) cls True (Some obj))))"

text \<open>
  What the caller's code does with the container: the methods that a script may call are
  among the \<open>allowed\<close> ones; the methods that only read; a script that returns whenever
  its calls of \<^verbatim>\<open>get\<close> do; a property of all the code.
\<close>

primrec calls_only :: "(operation \<Rightarrow> bool) \<Rightarrow> script \<Rightarrow> bool" where
  "calls_only allowed (Return v) \<longleftrightarrow> True"
| "calls_only allowed (Throw e) \<longleftrightarrow> True"
| "calls_only allowed Forever \<longleftrightarrow> True"
| "calls_only allowed (Get n cont) \<longleftrightarrow> (\<forall>r. calls_only allowed (cont r))"
| "calls_only allowed (Call m cont) \<longleftrightarrow> allowed m \<and> (\<forall>r. calls_only allowed (cont r))"
| "calls_only allowed (Alloc cls vs cont) \<longleftrightarrow> (\<forall>v. calls_only allowed (cont v))"

fun reads :: "operation \<Rightarrow> bool" where
  "reads (Has n) = True"
| "reads (GetClass n) = True"
| "reads _ = False"

primrec returns_by_itself :: "script \<Rightarrow> bool" where
  "returns_by_itself (Return v) \<longleftrightarrow> True"
| "returns_by_itself (Throw e) \<longleftrightarrow> True"
| "returns_by_itself Forever \<longleftrightarrow> False"
| "returns_by_itself (Get n cont) \<longleftrightarrow> (\<forall>r. returns_by_itself (cont r))"
| "returns_by_itself (Call m cont) \<longleftrightarrow> (\<forall>r. returns_by_itself (cont r))"
| "returns_by_itself (Alloc cls vs cont) \<longleftrightarrow> (\<forall>v. returns_by_itself (cont v))"

definition every_script :: "(script \<Rightarrow> bool) \<Rightarrow> code \<Rightarrow> bool" where
  "every_script P fe \<longleftrightarrow>
     (\<forall>f. P (function_code fe f)) \<and> (\<forall>cls this vs. P (constructor_code fe cls this vs))"

text \<open>
  No factory and no constructor calls a registering method of the container; every factory
  and every constructor returns whenever its calls of \<^verbatim>\<open>get\<close> do.
\<close>

definition registers_nothing :: "code \<Rightarrow> bool" where
  "registers_nothing fe \<longleftrightarrow> every_script (calls_only reads) fe"

definition code_returns :: "code \<Rightarrow> bool" where
  "code_returns fe \<longleftrightarrow> every_script returns_by_itself fe"

text \<open>
  The graph of the class definitions: a pair \<open>(a, n)\<close> says that \<open>n\<close> is registered as
  a class whose constructor declares the parameter \<open>a\<close>, and \<open>a\<close> is registered.
\<close>

definition class_graph :: "Container \<Rightarrow> (string \<times> string) set" where
  "class_graph c =
     {(a, n). \<exists>as cls isSingleton inst.
        container c n = Some (ClassDef (Some as) cls isSingleton inst) \<and> a \<in> set as \<and>
        container c a \<noteq> None}"

text \<open>
  The names that a script may resolve, and the graph with the caller's code in it: a pair
  \<open>(a, n)\<close> is one of the class graph, or \<open>n\<close> is registered as a factory whose code
  may resolve \<open>a\<close>, or as a class whose constructor's code may resolve \<open>a\<close>, and
  \<open>a\<close> is registered.
\<close>

primrec gets :: "script \<Rightarrow> string set" where
  "gets (Return v) = {}"
| "gets (Throw e) = {}"
| "gets Forever = {}"
| "gets (Get n cont) = insert n (\<Union>r. gets (cont r))"
| "gets (Call m cont) = (\<Union>r. gets (cont r))"
| "gets (Alloc cls vs cont) = (\<Union>v. gets (cont v))"

definition dep_graph :: "code \<Rightarrow> Container \<Rightarrow> (string \<times> string) set" where
  "dep_graph fe c =
     class_graph c \<union>
     {(a, n). \<exists>f. container c n = Some (FactoryDef (FuncV f)) \<and> a \<in> gets (function_code fe f) \<and>
        container c a \<noteq> None} \<union>
     {(a, n). \<exists>args cls isSingleton inst this vs.
        container c n = Some (ClassDef args cls isSingleton inst) \<and>
        a \<in> gets (constructor_code fe cls this vs) \<and> container c a \<noteq> None}"

subsection \<open>The examples of the README\<close>

definition no_config :: given_config where
  "no_config = \<lparr>given_prefix = None, given_npmPrefix = None, given_nodeModulePrefix = None,
                 given_debug = None\<rparr>"

definition exported_class :: "jsclass \<Rightarrow> requiredFile" where
  "exported_class cls =
     \<lparr>prototype_constructor = Some cls, ignore = None, depName_prop = None, singleton = None,
      factory_prop = None, constant_prop = None, function_prop = None\<rparr>"

definition Ball_class :: jsclass where
  "Ball_class = \<lparr>name = ''Ball'', source = ''class Ball { squeeze() { console.log(1); } }''\<rparr>"

text \<open>A class whose constructor is written out and declares no parameter.\<close>

definition Cat_class :: jsclass where
  "Cat_class = \<lparr>name = ''Cat'', source = ''class Cat { constructor() { this.lives = 9; } }''\<rparr>"

definition Dog_class :: jsclass where
  "Dog_class = \<lparr>name = ''Dog'', source = ''class Dog { constructor(Ball, socketIo) { this.Ball = Ball; } }''\<rparr>"

definition Car_class :: jsclass where
  "Car_class = \<lparr>name = ''Car'', source = ''class Car { constructor(name) { this.name = name; } }''\<rparr>"

text \<open>
  The code of the examples: function 0 is the car factory of the README, function 2 is
  \<^verbatim>\<open>function(container) { return container.get('Chicken'); }\<close>. The constructors of
  the README set fields of the new object and do nothing with the container.
\<close>

definition example_code :: code where
  "example_code =
     \<lparr>function_code =
        (\<lambda>f. if f = 0 then Get ''CarName'' (rethrow (\<lambda>v. Alloc Car_class [v] Return))
             else if f = 2 then Get ''Chicken'' (rethrow Return)
             else Return Undefined),
      constructor_code = (\<lambda>cls this vs. Return Undefined)\<rparr>"

definition example_container :: Container where
  "example_container =
     (let c0 = create no_config;
          c1 = snd (addFile c0 (exported_class Dog_class) None);
          c2 = snd (addFile c1 (exported_class Ball_class) None);
          c3 = snd (addConstant c2 ''CarName'' (Str ''Bobby Big Wheels''));
          c4 = snd (addFactory c3 ''Car'' (FuncV 0));
          c5 = snd (addFunction c4 ''Add12'' (FuncV 1))
      in c5)"

definition example_modules :: "string \<rightharpoonup> jsval" where
  "example_modules = [''bcrypt'' \<mapsto> ModuleV ''bcrypt'', ''socket.io'' \<mapsto> ModuleV ''socket.io'']"

definition example_world :: world where
  "example_world = \<lparr>self = example_container, heap = [], node_modules = example_modules\<rparr>"

text \<open>The same modules behind a container created with \<^verbatim>\<open>{nodeModulePrefix: '$'}\<close>.\<close>

definition prefixed_world :: world where
  "prefixed_world =
     \<lparr>self = create (no_config\<lparr>given_nodeModulePrefix := Some ''$''\<rparr>), heap = [],
      node_modules = example_modules\<rparr>"

text \<open>The option as the README names it, \<^verbatim>\<open>{npmPrefix: '$'}\<close>.\<close>

definition npmPrefix_world :: world where
  "npmPrefix_world =
     \<lparr>self = create (no_config\<lparr>given_npmPrefix := Some ''$''\<rparr>), heap = [],
      node_modules = example_modules\<rparr>"

text \<open>
  The same with the car factory registered under a name that starts with the prefix, and
  the constant that it resolves.
\<close>

definition prefixed_factory_world :: world where
  "prefixed_factory_world =
     prefixed_world\<lparr>self :=
       snd (addFactory (snd (addConstant (self prefixed_world) ''CarName'' (Str ''Bobby Big Wheels'')))
              ''$car'' (FuncV 0))\<rparr>"

text \<open>
  A class that takes a factory as its parameter, and that factory, function 2, which
  resolves the class.
\<close>

definition Chicken_class :: jsclass where
  "Chicken_class = \<lparr>name = ''Chicken'', source = ''class Chicken { constructor(Egg) { this.egg = Egg; } }''\<rparr>"

definition chicken_world :: world where
  "chicken_world =
     \<lparr>self = snd (addFactory (snd (addFile (create no_config) (exported_class Chicken_class) None))
                    ''Egg'' (FuncV 2)),
      heap = [], node_modules = example_modules\<rparr>"




text \<open>
  A class that is handed the container, registered as the constant \<^verbatim>\<open>Pool\<close>, and whose
  constructor resolves the name of the class itself.
\<close>

definition Twin_class :: jsclass where
  "Twin_class =
     \<lparr>name = ''Twin'',
      source = ''class Twin { constructor(Pool) {'' @ [CHR 0x0A] @ '' this.twin = Pool.get(this.constructor.name); } }''\<rparr>"

definition twin_code :: code where
  "twin_code =
     example_code\<lparr>constructor_code :=
       (\<lambda>cls this vs. if cls = Twin_class then Get ''Twin'' (rethrow (\<lambda>v. Return Undefined))
                       else Return Undefined)\<rparr>"

definition twin_world :: world where
  "twin_world =
     \<lparr>self = snd (addConstant (snd (addFile (create no_config) (exported_class Twin_class) None))
                    ''Pool'' ContainerV),
      heap = [], node_modules = example_modules\<rparr>"

section \<open>Proofs\<close>

subsection \<open>Reading the registry\<close>

lemma lookup_own [simp]: "container c n = Some dep \<Longrightarrow> lookup c n = Own dep"
  by (simp add: lookup_def)

lemma has_own [simp]: "container c n = Some dep \<Longrightarrow> has c n"
  by (simp add: has_def)

lemma lookup_Own_iff: "lookup c n = Own dep \<longleftrightarrow> container c n = Some dep"
  by (auto simp: lookup_def split: option.splits)

lemma lookup_Absent_iff: "lookup c n = Absent \<longleftrightarrow> \<not> has c n"
  by (simp add: has_def)

subsection \<open>The example container\<close>

lemma getFunctionArgs_Dog: "getFunctionArgs (source Dog_class) = Some [''Ball'', ''socketIo'']"
  unfolding Dog_class_def by code_simp

lemma getFunctionArgs_Ball: "getFunctionArgs (source Ball_class) = None"
  unfolding Ball_class_def by code_simp

lemma getFunctionArgs_Cat: "getFunctionArgs (source Cat_class) = None"
  unfolding Cat_class_def by code_simp

lemma name_Dog: "name Dog_class = ''Dog''"
  by (simp add: Dog_class_def)

lemma name_Ball: "name Ball_class = ''Ball''"
  by (simp add: Ball_class_def)

lemma example_registry:
  "container example_container =
     [''Dog'' \<mapsto> ClassDef (Some [''Ball'', ''socketIo'']) Dog_class True None,
      ''Ball'' \<mapsto> ClassDef None Ball_class True None,
      ''CarName'' \<mapsto> ConstantDef (Str ''Bobby Big Wheels''),
      ''Car'' \<mapsto> FactoryDef (FuncV 0),
      ''Add12'' \<mapsto> FunctionDef (FuncV 1)]"
  by (simp add: example_container_def create_def no_config_def addFile_def exported_class_def
      addClassDefinition_def class_depName_def createDepName_def setDependency_def read_prop_def
      lookup_def Object_prototype_def
      addConstant_def addFactory_def addFunction_def getFunctionArgs_Dog getFunctionArgs_Ball
      name_Dog name_Ball Let_def)

lemma config_setDependency: "config (snd (setDependency c n dep)) = config c"
  by (simp add: setDependency_def)

lemma config_addFile: "config (snd (addFile c rf pre)) = config c"
  by (simp add: addFile_def Let_def addClassDefinition_def addFactory_file_def
        addConstant_file_def addFunction_file_def config_setDependency split: option.splits)

lemma example_config: "config example_container = config (create no_config)"
  by (simp add: example_container_def Let_def addConstant_def addFactory_def addFunction_def
        config_setDependency config_addFile)

lemma example_no_prefix: "\<not> hasNodeModulePrefix example_container n"
  by (simp add: hasNodeModulePrefix_def example_config create_def no_config_def)

subsection \<open>The dash-cased name\<close>

lemma kebabCase_plain: "\<forall>c \<in> set s. \<not> upper_or_digit c \<Longrightarrow> kebabCase s = s"
  by (induction s) auto

lemma kebabCase_append:
  "pre = [] \<or> \<not> upper_or_digit (last pre) \<Longrightarrow> kebabCase (pre @ ys) = kebabCase pre @ kebabCase ys"
proof (induction pre rule: kebabCase.induct)
  case 1
  then show ?case by simp
next
  case (2 c cs)
  have nlast: "\<not> upper_or_digit (last (c # cs))" using "2.prems" by simp
  show ?case
  proof (cases "upper_or_digit c")
    case True
    have mem: "last (c # cs) \<in> set (c # cs)" by (rule last_in_set) simp
    have tw: "takeWhile upper_or_digit ((c # cs) @ ys) = takeWhile upper_or_digit (c # cs)"
      using mem nlast by (rule takeWhile_append1)
    have dw: "dropWhile upper_or_digit ((c # cs) @ ys) = dropWhile upper_or_digit (c # cs) @ ys"
      using mem nlast by (rule dropWhile_append1)
    have ne: "dropWhile upper_or_digit (c # cs) \<noteq> []"
      using mem nlast by (auto simp del: dropWhile.simps)
    have "last (takeWhile upper_or_digit (c # cs) @ dropWhile upper_or_digit (c # cs))
            = last (dropWhile upper_or_digit (c # cs))"
      using ne by (rule last_appendR)
    then have "last (dropWhile upper_or_digit (c # cs)) = last (c # cs)"
      by (simp only: takeWhile_dropWhile_id)
    then have "\<not> upper_or_digit (last (dropWhile upper_or_digit (c # cs)))" using nlast by simp
    then have ih: "kebabCase (dropWhile upper_or_digit (c # cs) @ ys)
         = kebabCase (dropWhile upper_or_digit (c # cs)) @ kebabCase ys"
      using "2.IH"(1)[OF True] by simp
    have "kebabCase ((c # cs) @ ys) = CHR ''-'' # map toLowerCase (takeWhile upper_or_digit ((c # cs) @ ys))
             @ kebabCase (dropWhile upper_or_digit ((c # cs) @ ys))"
      using True by (simp del: takeWhile.simps dropWhile.simps)
    also have "\<dots> = CHR ''-'' # map toLowerCase (takeWhile upper_or_digit (c # cs))
             @ kebabCase (dropWhile upper_or_digit (c # cs)) @ kebabCase ys"
      by (simp only: tw dw ih)
    also have "\<dots> = kebabCase (c # cs) @ kebabCase ys"
      using True by (simp del: takeWhile.simps dropWhile.simps)
    finally show ?thesis .
  next
    case False
    have "cs = [] \<or> \<not> upper_or_digit (last cs)" using nlast by (cases cs) auto
    then show ?thesis using False "2.IH"(2) by simp
  qed
qed

lemma kebabCase_run:
  assumes "run \<noteq> []" "\<forall>c \<in> set run. upper_or_digit c" "post = [] \<or> \<not> upper_or_digit (hd post)"
  shows "kebabCase (run @ post) = CHR ''-'' # map toLowerCase run @ kebabCase post"
proof -
  obtain c cs where run: "run = c # cs" using assms(1) by (cases run) auto
  have tp: "takeWhile upper_or_digit post = []" using assms(3) by (cases post) auto
  have dp: "dropWhile upper_or_digit post = post" using assms(3) by (cases post) auto
  have tw: "takeWhile upper_or_digit (run @ post) = run"
    using assms(2) tp by simp
  have dw: "dropWhile upper_or_digit (run @ post) = post"
    using assms(2) dp by simp
  have "upper_or_digit c" using assms(2) run by simp
  then have "kebabCase ((c # cs) @ post) = CHR ''-'' # map toLowerCase (takeWhile upper_or_digit ((c # cs) @ post))
             @ kebabCase (dropWhile upper_or_digit ((c # cs) @ post))"
    by (simp del: takeWhile.simps dropWhile.simps)
  then show ?thesis using tw dw unfolding run by (simp del: takeWhile.simps dropWhile.simps)
qed

text \<open>
  C7. \<open>kebabCase\<close> is a function of its argument alone. A string without uppercase
  letters and digits is returned as it is. Where the input is \<open>pre @ run @ post\<close> and
  \<open>run\<close> is a maximal run of uppercase letters and digits (not empty, \<open>pre\<close> does not
  end in such a character and \<open>post\<close> does not start with one), the result is the result
  for \<open>pre\<close>, a dash, the run in lower case, and the result for \<open>post\<close>. The two
  examples of the claim come out as it says.
\<close>

theorem kebabCase_runs:
  "((\<forall>c \<in> set s. \<not> upper_or_digit c) \<longrightarrow> kebabCase s = s) \<and>
   (run \<noteq> [] \<and> (\<forall>c \<in> set run. upper_or_digit c) \<and>
    (pre = [] \<or> \<not> upper_or_digit (last pre)) \<and> (post = [] \<or> \<not> upper_or_digit (hd post))
    \<longrightarrow> kebabCase (pre @ run @ post)
          = kebabCase pre @ CHR ''-'' # map toLowerCase run @ kebabCase post) \<and>
   kebabCase ''socketIo'' = ''socket-io'' \<and>
   kebabCase ''appleOrange2'' = ''apple-orange-2''"
proof (intro conjI impI)
  show "kebabCase ''socketIo'' = ''socket-io''" by (simp add: upper_or_digit_def toLowerCase_def)
  show "kebabCase ''appleOrange2'' = ''apple-orange-2''" by (simp add: upper_or_digit_def toLowerCase_def)
next
  assume "\<forall>c \<in> set s. \<not> upper_or_digit c"
  then show "kebabCase s = s" by (rule kebabCase_plain)
next
  assume h: "run \<noteq> [] \<and> (\<forall>c \<in> set run. upper_or_digit c) \<and>
    (pre = [] \<or> \<not> upper_or_digit (last pre)) \<and> (post = [] \<or> \<not> upper_or_digit (hd post))"
  then have "kebabCase (pre @ run @ post) = kebabCase pre @ kebabCase (run @ post)"
    by (simp add: kebabCase_append)
  then show "kebabCase (pre @ run @ post) = kebabCase pre @ CHR ''-'' # map toLowerCase run @ kebabCase post"
    using h by (simp add: kebabCase_run)
qed

theorem kebabCase_runs_witness:
  "kebabCase ''bcrypt'' = ''bcrypt'' \<and>
   kebabCase (''express'' @ ''S2'' @ ''ession'')
     = kebabCase ''express'' @ CHR ''-'' # map toLowerCase ''S2'' @ kebabCase ''ession''"
  using kebabCase_runs [of "''bcrypt''" "''S2''" "''express''" "''ession''"]
  by (simp add: upper_or_digit_def)

subsection \<open>Registration\<close>

lemma setDependency_present:
  "has c n \<Longrightarrow> setDependency c n dep = (Inl (DuplicateNameError n), c)"
  by (simp add: setDependency_def has_def)

lemma setDependency_absent:
  "\<not> has c n \<Longrightarrow> setDependency c n dep = (Inr (), c\<lparr>container := (container c)(n \<mapsto> dep)\<rparr>)"
  by (simp add: setDependency_def has_def)

lemma setDependency_keeps:
  "container c m = Some d \<Longrightarrow> container (snd (setDependency c n dep)) m = Some d"
  by (auto simp: setDependency_def)

lemma addFile_keeps:
  "container c m = Some d \<Longrightarrow> container (snd (addFile c rf pre)) m = Some d"
  by (auto simp: addFile_def Let_def addClassDefinition_def addFactory_file_def
        addConstant_file_def addFunction_file_def setDependency_keeps split: option.splits)

lemma addDirectory_keeps:
  "container c m = Some d \<Longrightarrow> container (snd (addDirectory c files pre)) m = Some d"
  "container c m = Some d \<Longrightarrow> container (snd (addEntry c ent pre)) m = Some d"
proof (induction c files pre and c ent pre rule: addDirectory_addEntry.induct)
  case (2 c ent files pre)
  obtain r c' where e: "addEntry c ent pre = (r, c')" by (cases "addEntry c ent pre")
  have k: "container c' m = Some d" using "2.IH"(1)[OF "2.prems"] e by simp
  show ?case
  proof (cases r)
    case (Inl err)
    then show ?thesis using e k by simp
  next
    case (Inr u)
    then show ?thesis using e k "2.IH"(2)[OF e[symmetric, unfolded Inr] ] by simp
  qed
qed (simp_all add: addFile_keeps)

lemma setDependency_error:
  "fst (setDependency c n dep) = Inl e \<Longrightarrow>
   snd (setDependency c n dep) = c \<and> (\<exists>m. e = DuplicateNameError m \<and> has c m)"
  by (auto simp: setDependency_def has_def split: if_splits)

lemma addFile_error:
  "fst (addFile c rf pre) = Inl e \<Longrightarrow> snd (addFile c rf pre) = c \<and> (\<exists>m. e = DuplicateNameError m \<and> has c m)"
proof -
  assume e: "fst (addFile c rf pre) = Inl e"
  define p where "p = (case pre of Some p \<Rightarrow> p | None \<Rightarrow> prefix (config c))"
  define ignored where "ignored \<longleftrightarrow> ignore rf \<noteq> None \<and> truthy (read_prop (ignore rf))"
  have unfold: "addFile c rf pre =
     (if ignored then (Inr (), c)
      else (case prototype_constructor rf of
              Some cls \<Rightarrow> addClassDefinition c rf cls p
            | None \<Rightarrow>
                if factory_prop rf \<noteq> None then addFactory_file c rf p
                else if constant_prop rf \<noteq> None then addConstant_file c rf p
                else if function_prop rf \<noteq> None then addFunction_file c rf p
                else (Inr (), c)))"
    unfolding addFile_def Let_def p_def ignored_def by (rule refl)
  show ?thesis
  proof (cases ignored)
    case True
    then show ?thesis using e unfold by simp
  next
    case ni: False
    show ?thesis
    proof (cases "prototype_constructor rf")
      case (Some cls)
      then have "addFile c rf pre = addClassDefinition c rf cls p" using ni unfold by simp
      then show ?thesis using e setDependency_error[of c _ _ e]
        by (simp add: addClassDefinition_def Let_def)
    next
      case None
      consider (fac) "addFile c rf pre = addFactory_file c rf p"
        | (con) "addFile c rf pre = addConstant_file c rf p"
        | (func) "addFile c rf pre = addFunction_file c rf p"
        | (skip) "addFile c rf pre = (Inr (), c)"
        using ni None unfold by (cases "factory_prop rf"; cases "constant_prop rf"; cases "function_prop rf") simp_all
      then show ?thesis
      proof cases
        case fac
        then show ?thesis using e setDependency_error[of c _ _ e] by (simp add: addFactory_file_def)
      next
        case con
        then show ?thesis using e setDependency_error[of c _ _ e] by (simp add: addConstant_file_def)
      next
        case func
        then show ?thesis using e setDependency_error[of c _ _ e] by (simp add: addFunction_file_def)
      next
        case skip
        then show ?thesis using e by simp
      qed
    qed
  qed
qed

text \<open>
  Registration in terms of \<open>has\<close>, the test the source makes. Where \<open>has\<close> holds of
  a name, \<open>setDependency\<close> and every operation that registers under that name (the
  three \<open>add\<close> operations, and the four that take the name from a loaded file) raise
  \<open>DuplicateNameError\<close> and return the container as it was. Where it does not hold, the
  operation succeeds and stores the new definition under the name. \<open>addFile\<close> fails
  only in this way. No registration, a directory scan included, changes a definition that
  is already there.
\<close>

lemma registration_by_has:
  "(has c n \<longrightarrow>
      setDependency c n dep = (Inl (DuplicateNameError n), c) \<and>
      addConstant c n v = (Inl (DuplicateNameError n), c) \<and>
      addFunction c n v = (Inl (DuplicateNameError n), c) \<and>
      addFactory c n v = (Inl (DuplicateNameError n), c) \<and>
      (createDepName (Some (class_depName rf cls)) pre = n
         \<longrightarrow> addClassDefinition c rf cls pre = (Inl (DuplicateNameError n), c)) \<and>
      (createDepName (depName_prop rf) pre = n
         \<longrightarrow> addConstant_file c rf pre = (Inl (DuplicateNameError n), c) \<and>
             addFunction_file c rf pre = (Inl (DuplicateNameError n), c) \<and>
             addFactory_file c rf pre = (Inl (DuplicateNameError n), c))) \<and>
   (\<not> has c n \<longrightarrow>
      setDependency c n dep = (Inr (), c\<lparr>container := (container c)(n \<mapsto> dep)\<rparr>) \<and>
      addConstant c n v = (Inr (), c\<lparr>container := (container c)(n \<mapsto> ConstantDef v)\<rparr>) \<and>
      addFunction c n v = (Inr (), c\<lparr>container := (container c)(n \<mapsto> FunctionDef v)\<rparr>) \<and>
      addFactory c n v = (Inr (), c\<lparr>container := (container c)(n \<mapsto> FactoryDef v)\<rparr>)) \<and>
   (fst (addFile c rf opt_pre) = Inl e
      \<longrightarrow> snd (addFile c rf opt_pre) = c \<and> (\<exists>m. e = DuplicateNameError m \<and> has c m)) \<and>
   (container c n = Some d
      \<longrightarrow> container (snd (setDependency c n' dep)) n = Some d \<and>
          container (snd (addFile c rf opt_pre)) n = Some d \<and>
          container (snd (addDirectory c files pre)) n = Some d)"
proof (intro conjI impI)
  assume h: "has c n"
  show "setDependency c n dep = (Inl (DuplicateNameError n), c)"
    using h by (rule setDependency_present)
  show "addConstant c n v = (Inl (DuplicateNameError n), c)"
    using h by (simp add: addConstant_def setDependency_present)
  show "addFunction c n v = (Inl (DuplicateNameError n), c)"
    using h by (simp add: addFunction_def setDependency_present)
  show "addFactory c n v = (Inl (DuplicateNameError n), c)"
    using h by (simp add: addFactory_def setDependency_present)
  {
    assume "createDepName (Some (class_depName rf cls)) pre = n"
    then show "addClassDefinition c rf cls pre = (Inl (DuplicateNameError n), c)"
      using h by (simp add: addClassDefinition_def Let_def setDependency_present)
  }
  {
    assume nm: "createDepName (depName_prop rf) pre = n"
    show "addConstant_file c rf pre = (Inl (DuplicateNameError n), c)"
      using h nm by (simp add: addConstant_file_def setDependency_present)
    show "addFunction_file c rf pre = (Inl (DuplicateNameError n), c)"
      using h nm by (simp add: addFunction_file_def setDependency_present)
    show "addFactory_file c rf pre = (Inl (DuplicateNameError n), c)"
      using h nm by (simp add: addFactory_file_def setDependency_present)
  }
next
  assume h: "\<not> has c n"
  show "setDependency c n dep = (Inr (), c\<lparr>container := (container c)(n \<mapsto> dep)\<rparr>)"
    using h by (rule setDependency_absent)
  show "addConstant c n v = (Inr (), c\<lparr>container := (container c)(n \<mapsto> ConstantDef v)\<rparr>)"
    using h by (simp add: addConstant_def setDependency_absent)
  show "addFunction c n v = (Inr (), c\<lparr>container := (container c)(n \<mapsto> FunctionDef v)\<rparr>)"
    using h by (simp add: addFunction_def setDependency_absent)
  show "addFactory c n v = (Inr (), c\<lparr>container := (container c)(n \<mapsto> FactoryDef v)\<rparr>)"
    using h by (simp add: addFactory_def setDependency_absent)
next
  assume "fst (addFile c rf opt_pre) = Inl e"
  then have "snd (addFile c rf opt_pre) = c \<and> (\<exists>m. e = DuplicateNameError m \<and> has c m)"
    by (rule addFile_error)
  then show "snd (addFile c rf opt_pre) = c" and "\<exists>m. e = DuplicateNameError m \<and> has c m"
    by simp_all
next
  assume h: "container c n = Some d"
  show "container (snd (setDependency c n' dep)) n = Some d" using h by (rule setDependency_keeps)
  show "container (snd (addFile c rf opt_pre)) n = Some d" using h by (rule addFile_keeps)
  show "container (snd (addDirectory c files pre)) n = Some d" using h by (rule addDirectory_keeps(1))
qed

text \<open>
  C4. A new container has nothing registered under \<^verbatim>\<open>constructor\<close>, and still
  \<open>has\<close> answers yes for it and registering a first definition under it is refused as
  a duplicate: the registry object inherits a property of that name, and the test
  \<^verbatim>\<open>this.container[name]\<close> of \<^verbatim>\<open>_setDependency\<close> finds it. It is the same for each
  of the names of \<open>Object_prototype\<close>. For every other name the claim holds
  (\<open>registration_by_has\<close>).
\<close>

theorem inherited_name_refused_as_duplicate:
  "container (create no_config) ''constructor'' = None \<and>
   has (create no_config) ''constructor'' \<and>
   addConstant (create no_config) ''constructor'' (Num 1)
     = (Inl (DuplicateNameError ''constructor''), create no_config)"
  by (simp add: create_def no_config_def has_def lookup_def Object_prototype_def addConstant_def
        setDependency_def)

lemma has_registered:
  "n \<notin> set Object_prototype \<Longrightarrow> has c n \<longleftrightarrow> container c n \<noteq> None"
  by (auto simp: has_def lookup_def split: option.splits)

subsection \<open>External modules\<close>

text \<open>
  C3. When \<open>get\<close> leaves a name to the external modules (the name starts with the
  configured prefix, or it is not registered), the result is the module loaded for the
  first of the name, its dash-cased form and the dotted form of that, in this order, that
  the provider resolves, and \<open>ExternalModuleNotFoundError\<close> when it resolves none of
  the three; the container is left as it was.
\<close>

theorem get_external_order:
  "hasNodeModulePrefix (self w) n \<or> \<not> has (self w) n \<Longrightarrow>
   get fe (Suc k) w n =
     Some (case List.map_filter (node_modules w) [n, kebabCase n, dotCase (kebabCase n)] of
             m # _ \<Rightarrow> Inr m
           | [] \<Rightarrow> Inl (ExternalModuleNotFoundError n), w)"
  by (auto simp: get_body_def getNodeModule_def nodeModuleExists_def require_def Let_def
           split: option.splits)

theorem get_external_order_witness:
  "\<not> has (self example_world) ''socketIo'' \<and>
   get example_code (Suc 0) example_world ''socketIo'' = Some (Inr (ModuleV ''socket.io''), example_world)"
proof -
  have h: "\<not> has (self example_world) ''socketIo''"
    by (simp add: has_def lookup_def Object_prototype_def example_world_def example_registry)
  have k: "kebabCase ''socketIo'' = ''socket-io''"
    by (simp add: upper_or_digit_def toLowerCase_def)
  have d: "dotCase ''socket-io'' = ''socket.io''"
    by (simp add: dotCase_def)
  have m: "node_modules example_world = example_modules"
    by (simp add: example_world_def)
  have "get example_code (Suc 0) example_world ''socketIo'' =
     Some (case List.map_filter (node_modules example_world)
                  [''socketIo'', kebabCase ''socketIo'', dotCase (kebabCase ''socketIo'')] of
             m # _ \<Rightarrow> Inr m
           | [] \<Rightarrow> Inl (ExternalModuleNotFoundError ''socketIo''), example_world)"
    using h by (intro get_external_order disjI2)
  then have "get example_code (Suc 0) example_world ''socketIo'' =
     Some (Inr (ModuleV ''socket.io''), example_world)"
    unfolding k d m by (simp add: example_modules_def)
  then show ?thesis using h by simp
qed

subsection \<open>\<open>getClass\<close>\<close>

text \<open>
  \<open>getClass\<close> returns the registered class itself, a \<open>ClassV\<close> and so not an
  object of the heap, for a name registered as a class; it fails with \<open>NotFoundError\<close>
  for a name of which \<open>has\<close> does not hold, and with \<open>WrongKindError\<close> for a name
  registered as a function or as a constant.
\<close>

lemma getClass_by_kind:
  "(container c n = Some (ClassDef args cls isSingleton inst) \<longrightarrow> getClass c n = Inr (ClassV cls)) \<and>
   (\<not> has c n \<longrightarrow> getClass c n = Inl (NotFoundError n)) \<and>
   (container c n = Some (FunctionDef v) \<or> container c n = Some (ConstantDef v)
      \<longrightarrow> getClass c n = Inl (WrongKindError n))"
  by (auto simp: getClass_def)

text \<open>
  C5. A new container has nothing registered under \<^verbatim>\<open>toString\<close>, and
  \<open>getClass\<close> does not fail for it with \<open>NotFoundError\<close>: \<open>has\<close> finds the
  inherited property of that name, which is neither flagged as a function nor as a
  constant, and \<open>getClass\<close> returns its \<^verbatim>\<open>file\<close>, \<^verbatim>\<open>undefined\<close>. It is the same
  for each of the names of \<open>Object_prototype\<close>. For every other name the claim holds
  (\<open>getClass_by_kind\<close> and \<open>has_registered\<close>).
\<close>

theorem getClass_inherited_name_undefined:
  "container (create no_config) ''toString'' = None \<and>
   getClass (create no_config) ''toString'' = Inr Undefined \<and>
   getClass (create no_config) ''toString'' \<noteq> Inl (NotFoundError ''toString'')"
  by (simp add: create_def no_config_def getClass_def has_def lookup_def Object_prototype_def)

text \<open>
  C8. For a name registered as a factory, \<open>getClass\<close> raises nothing: it returns
  \<^verbatim>\<open>undefined\<close>, the \<^verbatim>\<open>file\<close> field that a factory definition does not have.
\<close>

theorem getClass_factory:
  "container c n = Some (FactoryDef fac) \<Longrightarrow> getClass c n = Inr Undefined"
  by (simp add: getClass_def)

theorem getClass_factory_witness:
  "container example_container ''Car'' = Some (FactoryDef (FuncV 0)) \<and>
   getClass example_container ''Car'' = Inr Undefined"
proof -
  have h: "container example_container ''Car'' = Some (FactoryDef (FuncV 0))"
    by (simp add: example_registry)
  show ?thesis using h getClass_factory [OF h] by simp
qed

subsection \<open>Resolution: the branches of \<open>get\<close>\<close>

lemma get_external:
  "hasNodeModulePrefix (self w) n \<or> \<not> has (self w) n \<Longrightarrow>
   get fe (Suc k) w n = Some (getNodeModule w n, w)"
  by (simp add: get_body_def)

lemma get_cached:
  "container (self w) n = Some (ClassDef args cls True inst) \<Longrightarrow>
   \<not> hasNodeModulePrefix (self w) n \<Longrightarrow> truthy (read_prop inst) \<Longrightarrow>
   get fe (Suc k) w n = Some (Inr (read_prop inst), w)"
  by (simp add: get_body_def)

lemma get_class_noargs:
  "container (self w) n = Some (ClassDef None cls isSingleton inst) \<Longrightarrow>
   \<not> hasNodeModulePrefix (self w) n \<Longrightarrow> \<not> (isSingleton \<and> truthy (read_prop inst)) \<Longrightarrow>
   get fe (Suc k) w n = new_object (get fe k) fe w cls []"
  by (auto simp: get_body_def)

lemma get_class_args:
  "container (self w) n = Some (ClassDef (Some as) cls isSingleton inst) \<Longrightarrow>
   \<not> hasNodeModulePrefix (self w) n \<Longrightarrow> \<not> (isSingleton \<and> truthy (read_prop inst)) \<Longrightarrow>
   get fe (Suc k) w n =
     (case get_args (get fe k) w as of
        None \<Rightarrow> None
      | Some (Inl e, w') \<Rightarrow> Some (Inl e, w')
      | Some (Inr vs, w') \<Rightarrow>
          (case new_object (get fe k) fe w' cls vs of
             None \<Rightarrow> None
           | Some (Inl e, w'') \<Rightarrow> Some (Inl e, w'')
           | Some (Inr obj, w'') \<Rightarrow>
               Some (Inr obj,
                     if isSingleton
                     then set_container w'' n (ClassDef (Some as) cls isSingleton (Some obj))
                     else w'')))"
  by (auto simp: get_body_def)

lemma get_factory:
  "container (self w) n = Some (FactoryDef (FuncV f)) \<Longrightarrow> \<not> hasNodeModulePrefix (self w) n \<Longrightarrow>
   get fe (Suc k) w n = run_script (get fe k) (function_code fe f) w"
  by (simp add: get_body_def)

text \<open>The ways in which the body of \<open>get\<close> returns.\<close>

lemma get_body_cases [consumes 1, case_names same factory noargs args_error new_error constructed]:
  assumes "get_body fe g w n = Some (r, w')"
  obtains
    (same) "w' = w"
  | (factory) f where "container (self w) n = Some (FactoryDef (FuncV f))"
      "\<not> hasNodeModulePrefix (self w) n" "run_script g (function_code fe f) w = Some (r, w')"
  | (noargs) cls s inst where "container (self w) n = Some (ClassDef None cls s inst)"
      "\<not> hasNodeModulePrefix (self w) n" "new_object g fe w cls [] = Some (r, w')"
  | (args_error) as cls s inst e where
      "container (self w) n = Some (ClassDef (Some as) cls s inst)"
      "get_args g w as = Some (Inl e, w')" "r = Inl e"
  | (new_error) as cls s inst vs w1 e where
      "container (self w) n = Some (ClassDef (Some as) cls s inst)"
      "get_args g w as = Some (Inr vs, w1)" "new_object g fe w1 cls vs = Some (Inl e, w')"
      "r = Inl e"
  | (constructed) as cls s inst vs w1 obj w2 where
      "container (self w) n = Some (ClassDef (Some as) cls s inst)"
      "\<not> hasNodeModulePrefix (self w) n" "\<not> (s \<and> truthy (read_prop inst))"
      "get_args g w as = Some (Inr vs, w1)" "new_object g fe w1 cls vs = Some (Inr obj, w2)"
      "r = Inr obj"
      "w' = (if s then set_container w2 n (ClassDef (Some as) cls s (Some obj)) else w2)"
proof (cases "hasNodeModulePrefix (self w) n \<or> \<not> has (self w) n")
  case True
  then have "w' = w" using assms by (simp add: get_body_def)
  then show ?thesis by (rule same)
next
  case nx: False
  then have np: "\<not> hasNodeModulePrefix (self w) n" by simp
  show ?thesis
  proof (cases "lookup (self w) n")
    case Absent
    then have "w' = w" using assms nx by (simp add: get_body_def)
    then show ?thesis by (rule same)
  next
    case Inherited
    then have "w' = w" using assms nx by (simp add: get_body_def)
    then show ?thesis by (rule same)
  next
    case (Own d)
    then have reg: "container (self w) n = Some d" by (simp add: lookup_Own_iff)
    show ?thesis
    proof (cases d)
      case (ConstantDef v)
      then have "w' = w" using assms nx Own by (simp add: get_body_def)
      then show ?thesis by (rule same)
    next
      case (FunctionDef v)
      then have "w' = w" using assms nx Own by (simp add: get_body_def)
      then show ?thesis by (rule same)
    next
      case (FactoryDef fac)
      show ?thesis
      proof (cases "\<exists>f. fac = FuncV f")
        case True
        then obtain f where f: "fac = FuncV f" by blast
        have "run_script g (function_code fe f) w = Some (r, w')"
          using assms nx Own FactoryDef f by (simp add: get_body_def)
        then show ?thesis using reg FactoryDef f np by (intro factory[of f]) simp_all
      next
        case False
        then have "w' = w" using assms nx Own FactoryDef
          by (cases fac) (simp_all add: get_body_def)
        then show ?thesis by (rule same)
      qed
    next
      case (ClassDef args cls s inst)
      show ?thesis
      proof (cases "s \<and> truthy (read_prop inst)")
        case True
        then have "w' = w" using assms nx Own ClassDef by (simp add: get_body_def)
        then show ?thesis by (rule same)
      next
        case nc: False
        show ?thesis
        proof (cases args)
          case None
          have "new_object g fe w cls [] = Some (r, w')"
            using assms nx Own ClassDef nc None by (simp add: get_body_def)
          then show ?thesis using reg ClassDef None np by (intro noargs[of cls s inst]) simp_all
        next
          case (Some as)
          have reg': "container (self w) n = Some (ClassDef (Some as) cls s inst)"
            using reg ClassDef Some by simp
          have eq: "(case get_args g w as of
                        None \<Rightarrow> None
                      | Some (Inl e, w') \<Rightarrow> Some (Inl e, w')
                      | Some (Inr vs, w') \<Rightarrow>
                          (case new_object g fe w' cls vs of
                             None \<Rightarrow> None
                           | Some (Inl e, w'') \<Rightarrow> Some (Inl e, w'')
                           | Some (Inr obj, w'') \<Rightarrow>
                               Some (Inr obj,
                                     if s then set_container w'' n (ClassDef (Some as) cls s (Some obj))
                                     else w''))) = Some (r, w')"
            using assms nx Own ClassDef nc Some by (simp add: get_body_def)
          obtain ra w1 where ga: "get_args g w as = Some (ra, w1)"
            using eq by (cases "get_args g w as") auto
          show ?thesis
          proof (cases ra)
            case (Inl e)
            then have "w' = w1" "r = Inl e" using eq ga by simp_all
            then show ?thesis using reg' ga Inl by (intro args_error[of as cls s inst e]) simp_all
          next
            case (Inr vs)
            obtain rn w2 where no: "new_object g fe w1 cls vs = Some (rn, w2)"
              using eq ga Inr by (cases "new_object g fe w1 cls vs") auto
            show ?thesis
            proof (cases rn)
              case (Inl e)
              then have "w' = w2" "r = Inl e" using eq ga Inr no by simp_all
              then show ?thesis using reg' ga Inr no Inl
                by (intro new_error[of as cls s inst vs w1 e]) simp_all
            next
              case obj: (Inr obj)
              then have "r = Inr obj"
                "w' = (if s then set_container w2 n (ClassDef (Some as) cls s (Some obj)) else w2)"
                using eq ga Inr no by simp_all
              then show ?thesis using reg' np nc ga Inr no obj
                by (intro constructed[of as cls s inst vs w1 obj w2]) simp_all
            qed
          qed
        qed
      qed
    qed
  qed
qed


subsection \<open>Resolution: what it leaves as it is\<close>

lemma step_closedD:
  assumes "step_closed allowed R"
  shows "R w w"
    and "R w w' \<Longrightarrow> R w' w'' \<Longrightarrow> R w w''"
    and "R w (snd (allocate w cls vs))"
    and "allowed m \<Longrightarrow> R w (w\<lparr>self := snd (call (self w) m)\<rparr>)"
    and "R w w' \<Longrightarrow> container (self w) n = Some (ClassDef (Some as) cls True inst) \<Longrightarrow>
         \<not> truthy (read_prop inst) \<Longrightarrow>
         R w (set_container w' n (ClassDef (Some as) cls True (Some obj)))"
  using assms unfolding step_closed_def by blast+

lemma run_script_invariant:
  assumes sc: "step_closed allowed R"
    and g: "\<forall>w n r w'. g w n = Some (r, w') \<longrightarrow> R w w'"
  shows "calls_only allowed p \<Longrightarrow> run_script g p w = Some (r, w') \<Longrightarrow> R w w'"
proof (induction p arbitrary: w)
  case (Return v)
  then show ?case using step_closedD(1)[OF sc] by simp
next
  case (Throw e)
  then show ?case using step_closedD(1)[OF sc] by simp
next
  case Forever
  then show ?case by simp
next
  case (Get n cont)
  obtain r1 w1 where g1: "g w n = Some (r1, w1)"
    using Get.prems(2) by (cases "g w n") auto
  have "run_script g (cont r1) w1 = Some (r, w')" using Get.prems(2) g1 by simp
  moreover have "calls_only allowed (cont r1)" using Get.prems(1) by simp
  ultimately have "R w1 w'" using Get.IH[OF rangeI] by blast
  moreover have "R w w1" using g g1 by blast
  ultimately show ?case using step_closedD(2)[OF sc] by blast
next
  case (Call m cont)
  let ?w1 = "w\<lparr>self := snd (call (self w) m)\<rparr>"
  have "run_script g (cont (fst (call (self w) m))) ?w1 = Some (r, w')"
    using Call.prems(2) by (simp add: case_prod_unfold Let_def)
  moreover have "calls_only allowed (cont (fst (call (self w) m)))" using Call.prems(1) by simp
  ultimately have "R ?w1 w'" using Call.IH[OF rangeI] by blast
  moreover have "R w ?w1" using Call.prems(1) step_closedD(4)[OF sc] by simp
  ultimately show ?case using step_closedD(2)[OF sc] by blast
next
  case (Alloc cls vs cont)
  have "run_script g (cont (fst (allocate w cls vs))) (snd (allocate w cls vs)) = Some (r, w')"
    using Alloc.prems(2) by (simp add: case_prod_unfold Let_def)
  moreover have "calls_only allowed (cont (fst (allocate w cls vs)))" using Alloc.prems(1) by simp
  ultimately have "R (snd (allocate w cls vs)) w'" using Alloc.IH[OF rangeI] by blast
  then show ?case using step_closedD(3)[OF sc] step_closedD(2)[OF sc] by blast
qed

lemma new_object_invariant:
  assumes sc: "step_closed allowed R"
    and g: "\<forall>w n r w'. g w n = Some (r, w') \<longrightarrow> R w w'"
    and code: "every_script (calls_only allowed) fe"
    and new: "new_object g fe w cls vs = Some (r, w')"
  shows "R w w'"
proof -
  let ?obj = "fst (allocate w cls vs)" and ?w1 = "snd (allocate w cls vs)"
  obtain r1 where "run_script g (constructor_code fe cls ?obj vs) ?w1 = Some (r1, w')"
    using new by (auto simp: new_object_def case_prod_unfold Let_def split: option.splits sum.splits)
  moreover have "calls_only allowed (constructor_code fe cls ?obj vs)"
    using code by (simp add: every_script_def)
  ultimately have "R ?w1 w'" using run_script_invariant[where g = g and R = R, OF sc g] by blast
  then show ?thesis using step_closedD(3)[OF sc] step_closedD(2)[OF sc] by blast
qed

lemma get_args_invariant:
  assumes sc: "step_closed allowed R"
    and g: "\<forall>w n r w'. g w n = Some (r, w') \<longrightarrow> R w w'"
  shows "get_args g w as = Some (rs, w') \<Longrightarrow> R w w'"
proof (induction as arbitrary: w rs)
  case Nil
  then show ?case using step_closedD(1)[OF sc] by simp
next
  case (Cons a as)
  obtain r1 w1 where g1: "g w a = Some (r1, w1)"
    using Cons.prems by (cases "g w a") auto
  have 1: "R w w1" using g g1 by blast
  show ?case
  proof (cases r1)
    case (Inl e)
    then show ?thesis using Cons.prems g1 1 by simp
  next
    case (Inr v)
    obtain rs1 where "get_args g w1 as = Some (rs1, w')"
      using Cons.prems g1 Inr by (auto split: option.splits sum.splits)
    then have "R w1 w'" by (rule Cons.IH)
    then show ?thesis using 1 step_closedD(2)[OF sc] by blast
  qed
qed

lemma get_body_invariant:
  assumes sc: "step_closed allowed R"
    and g: "\<forall>w n r w'. g w n = Some (r, w') \<longrightarrow> R w w'"
    and code: "every_script (calls_only allowed) fe"
    and b: "get_body fe g w n = Some (r, w')"
  shows "R w w'"
  using b
proof (cases rule: get_body_cases)
  case same
  then show ?thesis using step_closedD(1)[OF sc] by simp
next
  case (factory f)
  have "calls_only allowed (function_code fe f)" using code by (simp add: every_script_def)
  then show ?thesis using factory(3) by (rule run_script_invariant[where g = g and R = R, OF sc g])
next
  case (noargs cls s inst)
  show ?thesis using noargs(3) by (rule new_object_invariant[where g = g and R = R, OF sc g code])
next
  case (args_error as cls s inst e)
  show ?thesis using args_error(2) by (rule get_args_invariant[where g = g and R = R, OF sc g])
next
  case (new_error as cls s inst vs w1 e)
  have "R w w1" using new_error(2) by (rule get_args_invariant[where g = g and R = R, OF sc g])
  moreover have "R w1 w'" using new_error(3) by (rule new_object_invariant[where g = g and R = R, OF sc g code])
  ultimately show ?thesis using step_closedD(2)[OF sc] by blast
next
  case (constructed as cls s inst vs w1 obj w2)
  have "R w w1" using constructed(4) by (rule get_args_invariant[where g = g and R = R, OF sc g])
  moreover have "R w1 w2" using constructed(5) by (rule new_object_invariant[where g = g and R = R, OF sc g code])
  ultimately have 2: "R w w2" using step_closedD(2)[OF sc] by blast
  show ?thesis
  proof (cases s)
    case True
    then have "container (self w) n = Some (ClassDef (Some as) cls True inst)"
      "\<not> truthy (read_prop inst)" using constructed(1,3) by simp_all
    then have "R w (set_container w2 n (ClassDef (Some as) cls True (Some obj)))"
      using 2 step_closedD(5)[OF sc] by blast
    then show ?thesis using constructed(7) True by simp
  next
    case False
    then show ?thesis using constructed(7) 2 by simp
  qed
qed

lemma get_invariant:
  assumes sc: "step_closed allowed R" and code: "every_script (calls_only allowed) fe"
  shows "get fe k w n = Some (r, w') \<Longrightarrow> R w w'"
proof (induction k arbitrary: w n r w')
  case 0
  then show ?case by simp
next
  case (Suc k)
  have b: "get_body fe (get fe k) w n = Some (r, w')" using Suc.prems by simp
  have ih: "\<forall>w n r w'. get fe k w n = Some (r, w') \<longrightarrow> R w w'" using Suc.IH by blast
  show ?case by (rule get_body_invariant[where g = "get fe k" and R = R, OF sc ih code b])
qed

lemma frame_refl: "frame c c"
  by (simp add: frame_def unchanged_or_cached_def)

lemma unchanged_or_cached_trans:
  "unchanged_or_cached d d' \<Longrightarrow> unchanged_or_cached d' d'' \<Longrightarrow> unchanged_or_cached d d''"
  by (auto simp: unchanged_or_cached_def)

lemma frame_trans: "frame c c' \<Longrightarrow> frame c' c'' \<Longrightarrow> frame c c''"
  unfolding frame_def by (metis unchanged_or_cached_trans)

lemma keeps_refl: "keeps c c"
  by (simp add: keeps_def unchanged_or_cached_def)

lemma unchanged_or_cached_registered:
  "unchanged_or_cached d d' \<Longrightarrow> d \<noteq> None \<Longrightarrow> d' \<noteq> None"
  by (auto simp: unchanged_or_cached_def)

lemma keeps_trans: "keeps c c' \<Longrightarrow> keeps c' c'' \<Longrightarrow> keeps c c''"
  unfolding keeps_def by (metis unchanged_or_cached_trans unchanged_or_cached_registered)

lemma frame_keeps: "frame c c' \<Longrightarrow> keeps c c'"
  by (simp add: frame_def keeps_def)

lemma config_addDirectory:
  "config (snd (addDirectory c files pre)) = config c"
  "config (snd (addEntry c ent pre)) = config c"
proof (induction c files pre and c ent pre rule: addDirectory_addEntry.induct)
  case (2 c ent files pre)
  obtain r c' where e: "addEntry c ent pre = (r, c')" by (cases "addEntry c ent pre")
  have k: "config c' = config c" using "2.IH"(1) e by simp
  show ?case
  proof (cases r)
    case (Inl err)
    then show ?thesis using e k by simp
  next
    case (Inr u)
    then show ?thesis using e k "2.IH"(2)[OF e[symmetric, unfolded Inr]] by simp
  qed
qed (simp_all add: config_addFile)

lemma call_keeps: "keeps c (snd (call c m))"
proof -
  have "config (snd (call c m)) = config c"
    by (cases m)
       (simp_all add: call_def returned_def addConstant_def addFunction_def addFactory_def
          config_setDependency config_addFile config_addDirectory)
  moreover have "container (snd (call c m)) n = Some d" if "container c n = Some d" for n d
    using that
    by (cases m)
       (simp_all add: call_def returned_def addConstant_def addFunction_def addFactory_def
          setDependency_keeps addFile_keeps addDirectory_keeps)
  ultimately show ?thesis
    unfolding keeps_def unchanged_or_cached_def by (metis not_Some_eq)
qed

lemma call_reads: "reads m \<Longrightarrow> snd (call c m) = c"
  by (cases m) (simp_all add: call_def)

lemma step_closed_keeps: "step_closed (\<lambda>m. True) (\<lambda>w w'. keeps (self w) (self w'))"
  unfolding step_closed_def
proof (intro conjI allI impI)
  fix w w' :: world and n as cls inst obj
  assume k: "keeps (self w) (self w')"
    and reg: "container (self w) n = Some (ClassDef (Some as) cls True inst)"
    and nc: "\<not> truthy (read_prop inst)"
  have "container (self w) m = None \<or>
        unchanged_or_cached (container (self w) m)
          (container (self (set_container w' n (ClassDef (Some as) cls True (Some obj)))) m)" for m
  proof (cases "m = n")
    case True
    then show ?thesis using reg nc by (simp add: set_container_def unchanged_or_cached_def)
  next
    case False
    have "container (self w) m = None \<or>
          unchanged_or_cached (container (self w) m) (container (self w') m)"
      using k unfolding keeps_def by blast
    then show ?thesis using False by (auto simp: set_container_def)
  qed
  moreover have "config (self (set_container w' n (ClassDef (Some as) cls True (Some obj))))
                   = config (self w)"
    using k by (simp add: keeps_def set_container_def)
  ultimately show "keeps (self w) (self (set_container w' n (ClassDef (Some as) cls True (Some obj))))"
    unfolding keeps_def by blast
qed (auto simp: keeps_refl allocate_def call_keeps intro: keeps_trans)

lemma step_closed_frame: "step_closed reads (\<lambda>w w'. frame (self w) (self w'))"
  unfolding step_closed_def
proof (intro conjI allI impI)
  fix w w' :: world and n as cls inst obj
  assume k: "frame (self w) (self w')"
    and reg: "container (self w) n = Some (ClassDef (Some as) cls True inst)"
    and nc: "\<not> truthy (read_prop inst)"
  have "unchanged_or_cached (container (self w) m)
          (container (self (set_container w' n (ClassDef (Some as) cls True (Some obj)))) m)" for m
  proof (cases "m = n")
    case True
    then show ?thesis using reg nc by (simp add: set_container_def unchanged_or_cached_def)
  next
    case False
    then show ?thesis using k by (simp add: set_container_def frame_def)
  qed
  then show "frame (self w) (self (set_container w' n (ClassDef (Some as) cls True (Some obj))))"
    using k unfolding frame_def by (simp add: set_container_def)
qed (auto simp: frame_refl allocate_def call_reads intro: frame_trans)

lemma calls_only_any: "calls_only (\<lambda>m. True) p"
  by (induction p) simp_all

text \<open>
  Whatever the caller's code does with the methods of the container, resolution keeps the
  configuration and every registered definition, apart from setting missing
  \<^verbatim>\<open>instance\<close> fields.
\<close>

lemma get_keeps: "get fe k w n = Some (r, w') \<Longrightarrow> keeps (self w) (self w')"
  by (rule get_invariant[OF step_closed_keeps, where fe = fe])
     (simp_all add: every_script_def calls_only_any)

lemma get_frame:
  "registers_nothing fe \<Longrightarrow> get fe k w n = Some (r, w') \<Longrightarrow> frame (self w) (self w')"
  unfolding registers_nothing_def by (rule get_invariant[OF step_closed_frame])


subsection \<open>Resolution: fuel\<close>

lemma run_script_mono:
  assumes le: "\<forall>w n r. g w n = Some r \<longrightarrow> g' w n = Some r"
  shows "run_script g p w = Some r \<Longrightarrow> run_script g' p w = Some r"
proof (induction p arbitrary: w)
  case (Get n cont)
  obtain r1 w1 where g: "g w n = Some (r1, w1)"
    using Get.prems by (cases "g w n") auto
  have g': "g' w n = Some (r1, w1)" using g le by blast
  have "run_script g (cont r1) w1 = Some r" using Get.prems g by simp
  then have "run_script g' (cont r1) w1 = Some r" by (rule Get.IH[OF rangeI])
  then show ?case using g' by simp
next
  case (Call m cont)
  have "run_script g (cont (fst (call (self w) m))) (w\<lparr>self := snd (call (self w) m)\<rparr>) = Some r"
    using Call.prems by (simp add: case_prod_unfold Let_def)
  then have "run_script g' (cont (fst (call (self w) m))) (w\<lparr>self := snd (call (self w) m)\<rparr>) = Some r"
    by (rule Call.IH[OF rangeI])
  then show ?case by (simp add: case_prod_unfold Let_def)
next
  case (Alloc cls vs cont)
  have "run_script g (cont (fst (allocate w cls vs))) (snd (allocate w cls vs)) = Some r"
    using Alloc.prems by (simp add: case_prod_unfold Let_def)
  then have "run_script g' (cont (fst (allocate w cls vs))) (snd (allocate w cls vs)) = Some r"
    by (rule Alloc.IH[OF rangeI])
  then show ?case by (simp add: case_prod_unfold Let_def)
qed simp_all

lemma new_object_mono:
  assumes le: "\<forall>w n r. g w n = Some r \<longrightarrow> g' w n = Some r"
    and new: "new_object g fe w cls vs = Some r"
  shows "new_object g' fe w cls vs = Some r"
proof -
  let ?p = "constructor_code fe cls (fst (allocate w cls vs)) vs" and ?w1 = "snd (allocate w cls vs)"
  obtain r1 where 1: "run_script g ?p ?w1 = Some r1"
    using new by (auto simp: new_object_def case_prod_unfold Let_def split: option.splits)
  have "run_script g' ?p ?w1 = Some r1" using 1 by (rule run_script_mono[OF le])
  then show ?thesis using new 1 by (simp add: new_object_def case_prod_unfold Let_def)
qed

lemma get_args_mono:
  assumes le: "\<forall>w n r. g w n = Some r \<longrightarrow> g' w n = Some r"
  shows "get_args g w as = Some rs \<Longrightarrow> get_args g' w as = Some rs"
proof (induction as arbitrary: w rs)
  case Nil
  then show ?case by simp
next
  case (Cons a as)
  obtain r1 w1 where g: "g w a = Some (r1, w1)"
    using Cons.prems by (cases "g w a") auto
  have g': "g' w a = Some (r1, w1)" using g le by blast
  show ?case
  proof (cases r1)
    case (Inl e)
    then show ?thesis using Cons.prems g g' by simp
  next
    case (Inr v)
    obtain rs1 where ga: "get_args g w1 as = Some rs1"
      using Cons.prems g Inr by (cases "get_args g w1 as") auto
    have "get_args g' w1 as = Some rs1" using ga by (rule Cons.IH)
    then show ?thesis using Cons.prems g g' Inr ga by simp
  qed
qed

lemma get_body_class_args:
  "container (self w) n = Some (ClassDef (Some as) cls isSingleton inst) \<Longrightarrow>
   \<not> hasNodeModulePrefix (self w) n \<Longrightarrow> \<not> (isSingleton \<and> truthy (read_prop inst)) \<Longrightarrow>
   get_body fe g w n =
     (case get_args g w as of
        None \<Rightarrow> None
      | Some (Inl e, w') \<Rightarrow> Some (Inl e, w')
      | Some (Inr vs, w') \<Rightarrow>
          (case new_object g fe w' cls vs of
             None \<Rightarrow> None
           | Some (Inl e, w'') \<Rightarrow> Some (Inl e, w'')
           | Some (Inr obj, w'') \<Rightarrow>
               Some (Inr obj,
                     if isSingleton
                     then set_container w'' n (ClassDef (Some as) cls isSingleton (Some obj))
                     else w'')))"
  by (auto simp: get_body_def)

lemma get_body_class_noargs:
  "container (self w) n = Some (ClassDef None cls isSingleton inst) \<Longrightarrow>
   \<not> hasNodeModulePrefix (self w) n \<Longrightarrow> \<not> (isSingleton \<and> truthy (read_prop inst)) \<Longrightarrow>
   get_body fe g w n = new_object g fe w cls []"
  by (auto simp: get_body_def)

lemma get_body_factory:
  "container (self w) n = Some (FactoryDef (FuncV f)) \<Longrightarrow> \<not> hasNodeModulePrefix (self w) n \<Longrightarrow>
   get_body fe g w n = run_script g (function_code fe f) w"
  by (simp add: get_body_def)

text \<open>The branches that call neither the caller's code nor \<open>get\<close>.\<close>

lemma get_body_other:
  assumes "\<forall>args cls s inst. container (self w) n = Some (ClassDef args cls s inst) \<longrightarrow>
      hasNodeModulePrefix (self w) n \<or> (s \<and> truthy (read_prop inst))"
    and "\<forall>f. container (self w) n = Some (FactoryDef (FuncV f)) \<longrightarrow> hasNodeModulePrefix (self w) n"
  shows "get_body fe g w n = get_body fe g' w n" and "\<exists>r. get_body fe g w n = Some r"
  using assms
  by (auto simp: get_body_def lookup_Own_iff
           split: option.splits property.splits dependency.splits jsval.splits)

lemma get_body_branches:
  obtains
    (args) as cls s inst where "container (self w) n = Some (ClassDef (Some as) cls s inst)"
      "\<not> hasNodeModulePrefix (self w) n" "\<not> (s \<and> truthy (read_prop inst))"
  | (noargs) cls s inst where "container (self w) n = Some (ClassDef None cls s inst)"
      "\<not> hasNodeModulePrefix (self w) n" "\<not> (s \<and> truthy (read_prop inst))"
  | (factory) f where "container (self w) n = Some (FactoryDef (FuncV f))"
      "\<not> hasNodeModulePrefix (self w) n"
  | (other) "\<forall>args cls s inst. container (self w) n = Some (ClassDef args cls s inst) \<longrightarrow>
        hasNodeModulePrefix (self w) n \<or> (s \<and> truthy (read_prop inst))"
      "\<forall>f. container (self w) n = Some (FactoryDef (FuncV f)) \<longrightarrow> hasNodeModulePrefix (self w) n"
  by (metis not_Some_eq)

lemma get_body_mono:
  assumes le: "\<forall>w n r. g w n = Some r \<longrightarrow> g' w n = Some r"
    and b: "get_body fe g w n = Some r"
  shows "get_body fe g' w n = Some r"
proof (cases rule: get_body_branches[of w n])
  case (args as cls s inst)
  note eq = get_body_class_args[OF args, of fe]
  obtain ra w1 where ga: "get_args g w as = Some (ra, w1)"
    using b unfolding eq by (cases "get_args g w as") auto
  have ga': "get_args g' w as = Some (ra, w1)" using ga by (rule get_args_mono[OF le])
  show ?thesis
  proof (cases ra)
    case (Inl e)
    then show ?thesis using b ga ga' unfolding eq by simp
  next
    case (Inr vs)
    obtain rn where no: "new_object g fe w1 cls vs = Some rn"
      using b ga Inr unfolding eq by (cases "new_object g fe w1 cls vs") auto
    have "new_object g' fe w1 cls vs = Some rn" using no by (rule new_object_mono[OF le])
    then show ?thesis using b ga ga' Inr no unfolding eq by simp
  qed
next
  case (noargs cls s inst)
  note eq = get_body_class_noargs[OF noargs, of fe]
  have "new_object g fe w cls [] = Some r" using b unfolding eq .
  then have "new_object g' fe w cls [] = Some r" by (rule new_object_mono[OF le])
  then show ?thesis unfolding eq .
next
  case (factory f)
  note eq = get_body_factory[OF factory, of fe]
  have "run_script g (function_code fe f) w = Some r" using b unfolding eq .
  then have "run_script g' (function_code fe f) w = Some r" by (rule run_script_mono[OF le])
  then show ?thesis unfolding eq .
next
  case other
  have "get_body fe g w n = get_body fe g' w n" using other by (rule get_body_other(1))
  then show ?thesis using b by simp
qed

lemma get_fuel_Suc: "get fe k w n = Some r \<Longrightarrow> get fe (Suc k) w n = Some r"
proof (induction k arbitrary: w n r)
  case 0
  then show ?case by simp
next
  case (Suc k)
  have le: "\<forall>w n r. get fe k w n = Some r \<longrightarrow> get fe (Suc k) w n = Some r"
    using Suc.IH by blast
  have "get_body fe (get fe k) w n = Some r" using Suc.prems by simp
  then have "get_body fe (get fe (Suc k)) w n = Some r" by (rule get_body_mono[OF le])
  then show ?case by simp
qed

lemma get_fuel_add: "get fe k w n = Some r \<Longrightarrow> get fe (k + j) w n = Some r"
proof (induction j)
  case 0
  then show ?case by (simp only: add_0_right)
next
  case (Suc j)
  have "get fe (k + j) w n = Some r" using Suc.prems by (rule Suc.IH)
  then have "get fe (Suc (k + j)) w n = Some r" by (rule get_fuel_Suc)
  then show ?case by (simp only: add_Suc_right)
qed

lemma get_fuel_mono:
  "get fe k w n = Some r \<Longrightarrow> k \<le> k' \<Longrightarrow> get fe k' w n = Some r"
  using get_fuel_add [of fe k w n r "k' - k"] by simp

lemma get_fuel_le: "k \<le> k' \<Longrightarrow> \<forall>w n r. get fe k w n = Some r \<longrightarrow> get fe k' w n = Some r"
  using get_fuel_mono by blast

lemma run_script_fuel_mono:
  "run_script (get fe k) p w = Some r \<Longrightarrow> k \<le> k' \<Longrightarrow> run_script (get fe k') p w = Some r"
  using run_script_mono[OF get_fuel_le] by blast

lemma get_args_fuel_mono:
  "get_args (get fe k) w as = Some rs \<Longrightarrow> k \<le> k' \<Longrightarrow> get_args (get fe k') w as = Some rs"
  using get_args_mono[OF get_fuel_le] by blast

lemma new_object_fuel_mono:
  "new_object (get fe k) fe w cls vs = Some r \<Longrightarrow> k \<le> k'
   \<Longrightarrow> new_object (get fe k') fe w cls vs = Some r"
  using new_object_mono[OF get_fuel_le] by blast


subsection \<open>Resolution: when it returns\<close>

lemma get_args_frame:
  "registers_nothing fe \<Longrightarrow> get_args (get fe k) w as = Some (rs, w')
   \<Longrightarrow> frame (self w) (self w')"
  by (rule get_args_invariant[OF step_closed_frame, where g = "get fe k"])
     (auto intro: get_frame)

lemma frame_registered:
  "frame c c' \<Longrightarrow> (container c' a = None) = (container c a = None)"
  unfolding frame_def unchanged_or_cached_def by (metis option.distinct(1))

lemma frame_class:
  "frame c c' \<Longrightarrow> container c' n = Some (ClassDef args cls s inst') \<Longrightarrow>
   \<exists>inst. container c n = Some (ClassDef args cls s inst)"
  unfolding frame_def unchanged_or_cached_def
  by (metis dependency.inject(1) option.inject)

lemma frame_factory:
  "frame c c' \<Longrightarrow>
   (container c' n = Some (FactoryDef fac)) = (container c n = Some (FactoryDef fac))"
  unfolding frame_def unchanged_or_cached_def
  by (metis dependency.distinct(5) option.inject)

lemma get_unregistered_returns:
  "container (self w) n = None \<Longrightarrow> \<exists>r. get fe (Suc k) w n = Some r"
  using get_body_other(2)[of w n fe "get fe k"] by simp

lemma run_script_terminates:
  assumes ih: "\<forall>a w. a \<in> S \<longrightarrow> container c0 a \<noteq> None \<longrightarrow> frame c0 (self w)
                 \<longrightarrow> (\<exists>k r. get fe k w a = Some r)"
    and quiet: "registers_nothing fe"
  shows "gets p \<subseteq> S \<Longrightarrow> calls_only reads p \<Longrightarrow> returns_by_itself p \<Longrightarrow> frame c0 (self w)
         \<Longrightarrow> \<exists>k r. run_script (get fe k) p w = Some r"
proof (induction p arbitrary: w)
  case (Return v)
  then show ?case by simp
next
  case (Throw e)
  then show ?case by simp
next
  case Forever
  then show ?case by simp
next
  case (Get a cont)
  have "\<exists>k r. get fe k w a = Some r"
  proof (cases "container (self w) a")
    case None
    then show ?thesis using get_unregistered_returns by blast
  next
    case (Some d)
    then have "container c0 a \<noteq> None" using frame_registered[OF Get.prems(4), of a] by simp
    moreover have "a \<in> S" using Get.prems(1) by simp
    ultimately show ?thesis using Get.prems(4) ih by blast
  qed
  then obtain k1 r1 w1 where g: "get fe k1 w a = Some (r1, w1)" by auto
  have "frame (self w) (self w1)" using quiet g by (rule get_frame)
  then have f01: "frame c0 (self w1)" using Get.prems(4) by (rule frame_trans[rotated])
  have "gets (cont r1) \<subseteq> S" using Get.prems(1) by auto
  moreover have "calls_only reads (cont r1)" "returns_by_itself (cont r1)"
    using Get.prems(2,3) by simp_all
  ultimately obtain k2 r2 where r2: "run_script (get fe k2) (cont r1) w1 = Some r2"
    using Get.IH[OF rangeI _ _ _ f01] by blast
  have g': "get fe (max k1 k2) w a = Some (r1, w1)"
    using g get_fuel_mono[of fe k1 w a "(r1, w1)" "max k1 k2"] by simp
  have "run_script (get fe (max k1 k2)) (cont r1) w1 = Some r2"
    using r2 run_script_fuel_mono[of fe k2 "cont r1" w1 r2 "max k1 k2"] by simp
  then have "run_script (get fe (max k1 k2)) (Get a cont) w = Some r2" using g' by simp
  then show ?case by blast
next
  case (Call m cont)
  let ?r = "fst (call (self w) m)"
  have same: "w\<lparr>self := snd (call (self w) m)\<rparr> = w"
    using Call.prems(2) by (simp add: call_reads)
  have "gets (cont ?r) \<subseteq> S" using Call.prems(1) by auto
  moreover have "calls_only reads (cont ?r)" "returns_by_itself (cont ?r)"
    using Call.prems(2,3) by simp_all
  ultimately obtain k r where "run_script (get fe k) (cont ?r) w = Some r"
    using Call.IH[OF rangeI _ _ _ Call.prems(4)] by blast
  then have "run_script (get fe k) (Call m cont) w = Some r"
    using same by (simp add: case_prod_unfold Let_def)
  then show ?case by blast
next
  case (Alloc cls vs cont)
  let ?v = "fst (allocate w cls vs)" and ?w1 = "snd (allocate w cls vs)"
  have "gets (cont ?v) \<subseteq> S" using Alloc.prems(1) by auto
  moreover have "calls_only reads (cont ?v)" "returns_by_itself (cont ?v)"
    using Alloc.prems(2,3) by simp_all
  moreover have "frame c0 (self ?w1)"
    using Alloc.prems(4) by (simp add: allocate_def)
  ultimately obtain k r where "run_script (get fe k) (cont ?v) ?w1 = Some r"
    using Alloc.IH[OF rangeI] by blast
  then have "run_script (get fe k) (Alloc cls vs cont) w = Some r"
    by (simp add: case_prod_unfold Let_def)
  then show ?case by blast
qed

lemma new_object_terminates:
  assumes ih: "\<forall>a w. a \<in> S \<longrightarrow> container c0 a \<noteq> None \<longrightarrow> frame c0 (self w)
                 \<longrightarrow> (\<exists>k r. get fe k w a = Some r)"
    and quiet: "registers_nothing fe" and total: "code_returns fe"
    and sub: "\<forall>this. gets (constructor_code fe cls this vs) \<subseteq> S"
    and fr: "frame c0 (self w)"
  shows "\<exists>k r. new_object (get fe k) fe w cls vs = Some r"
proof -
  let ?p = "constructor_code fe cls (fst (allocate w cls vs)) vs" and ?w1 = "snd (allocate w cls vs)"
  have "gets ?p \<subseteq> S" using sub by blast
  moreover have "calls_only reads ?p" using quiet
    by (simp add: registers_nothing_def every_script_def)
  moreover have "returns_by_itself ?p" using total
    by (simp add: code_returns_def every_script_def)
  moreover have "frame c0 (self ?w1)" using fr by (simp add: allocate_def)
  ultimately obtain k r1 w2 where "run_script (get fe k) ?p ?w1 = Some (r1, w2)"
    using run_script_terminates[OF ih quiet, of ?p ?w1] by auto
  then have "\<exists>r. new_object (get fe k) fe w cls vs = Some r"
    by (cases r1) (simp_all add: new_object_def case_prod_unfold Let_def)
  then show ?thesis by blast
qed

lemma get_args_terminates:
  assumes ih: "\<forall>a w. a \<in> S \<longrightarrow> container c0 a \<noteq> None \<longrightarrow> frame c0 (self w)
                 \<longrightarrow> (\<exists>k r. get fe k w a = Some r)"
    and quiet: "registers_nothing fe"
  shows "set bs \<subseteq> S \<Longrightarrow> frame c0 (self w) \<Longrightarrow> \<exists>k rs. get_args (get fe k) w bs = Some rs"
proof (induction bs arbitrary: w)
  case Nil
  have "get_args (get fe 0) w [] = Some (Inr [], w)" by simp
  then show ?case by blast
next
  case (Cons b bs)
  have "\<exists>k r. get fe k w b = Some r"
  proof (cases "container (self w) b")
    case None
    then show ?thesis using get_unregistered_returns by blast
  next
    case (Some d)
    then have "container c0 b \<noteq> None" using frame_registered[OF Cons.prems(2), of b] by simp
    moreover have "b \<in> S" using Cons.prems(1) by simp
    ultimately show ?thesis using Cons.prems(2) ih by blast
  qed
  then obtain k1 r1 w1 where g: "get fe k1 w b = Some (r1, w1)" by auto
  have "frame (self w) (self w1)" using quiet g by (rule get_frame)
  then have f01: "frame c0 (self w1)" using Cons.prems(2) by (rule frame_trans[rotated])
  show ?case
  proof (cases r1)
    case (Inl e)
    then have "get_args (get fe k1) w (b # bs) = Some (Inl e, w1)" using g by simp
    then show ?thesis by blast
  next
    case (Inr v)
    have "set bs \<subseteq> S" using Cons.prems(1) by simp
    then obtain k2 rs w2 where ga: "get_args (get fe k2) w1 bs = Some (rs, w2)"
      using Cons.IH[OF _ f01] by auto
    let ?k = "max k1 k2"
    have g': "get fe ?k w b = Some (Inr v, w1)"
      using g Inr get_fuel_mono[of fe k1 w b "(Inr v, w1)" "max k1 k2"] by simp
    have ga': "get_args (get fe ?k) w1 bs = Some (rs, w2)"
      using ga get_args_fuel_mono[of fe k2 w1 bs "(rs, w2)" "max k1 k2"] by simp
    have "\<exists>res. get_args (get fe ?k) w (b # bs) = Some res"
      using g' ga' by (cases rs) simp_all
    then show ?thesis by blast
  qed
qed

lemma get_terminates_wf:
  assumes wf: "wf (dep_graph fe c0)"
    and quiet: "registers_nothing fe" and total: "code_returns fe"
  shows "frame c0 (self w) \<Longrightarrow> \<exists>k r. get fe k w n = Some r"
proof (induction n arbitrary: w rule: wf_induct_rule[OF wf])
  case (1 n)
  note fr = "1.prems"
  have ih: "\<forall>a w. a \<in> {a. (a, n) \<in> dep_graph fe c0} \<longrightarrow> container c0 a \<noteq> None
              \<longrightarrow> frame c0 (self w) \<longrightarrow> (\<exists>k r. get fe k w a = Some r)"
    using "1.IH" by blast
  have ctor_edges: "\<forall>this. gets (constructor_code fe cls this vs) \<subseteq> {a. (a, n) \<in> dep_graph fe c0}
                           \<union> {a. container c0 a = None}"
    if reg: "container (self w) n = Some (ClassDef args cls s inst)" for args cls s inst vs
  proof -
    obtain inst0 where "container c0 n = Some (ClassDef args cls s inst0)"
      using frame_class[OF fr reg] by blast
    then show ?thesis by (auto simp: dep_graph_def)
  qed
  have ih': "\<forall>a w. a \<in> {a. (a, n) \<in> dep_graph fe c0} \<union> {a. container c0 a = None}
               \<longrightarrow> container c0 a \<noteq> None
               \<longrightarrow> frame c0 (self w) \<longrightarrow> (\<exists>k r. get fe k w a = Some r)"
    using ih by simp
  show ?case
  proof (cases rule: get_body_branches[of w n])
    case (args as cls s inst)
    obtain inst0 where c0: "container c0 n = Some (ClassDef (Some as) cls s inst0)"
      using frame_class[OF fr args(1)] by blast
    have "set as \<subseteq> {a. (a, n) \<in> dep_graph fe c0} \<union> {a. container c0 a = None}"
      using c0 by (auto simp: dep_graph_def class_graph_def)
    then obtain k1 ra w1 where ga: "get_args (get fe k1) w as = Some (ra, w1)"
      using get_args_terminates[OF ih' quiet _ fr, of as] by auto
    show ?thesis
    proof (cases ra)
      case (Inl e)
      then have "get fe (Suc k1) w n = Some (Inl e, w1)"
        using ga unfolding get_class_args[OF args, of fe k1] by simp
      then show ?thesis by blast
    next
      case (Inr vs)
      have "frame (self w) (self w1)" using quiet ga by (rule get_args_frame)
      then have f1: "frame c0 (self w1)" using fr by (rule frame_trans[rotated])
      obtain k2 rn where no: "new_object (get fe k2) fe w1 cls vs = Some rn"
        using new_object_terminates[OF ih' quiet total ctor_edges[OF args(1)] f1] by blast
      let ?k = "max k1 k2"
      have ga': "get_args (get fe ?k) w as = Some (Inr vs, w1)"
        using ga Inr get_args_fuel_mono[of fe k1 w as "(ra, w1)" ?k] by simp
      have no': "new_object (get fe ?k) fe w1 cls vs = Some rn"
        using no new_object_fuel_mono[of fe k2 w1 cls vs rn ?k] by simp
      obtain rr w2 where rn: "rn = (rr, w2)" by (cases rn)
      have "\<exists>r. get fe (Suc ?k) w n = Some r"
        unfolding get_class_args[OF args, of fe ?k] ga' using no' rn by (cases rr) simp_all
      then show ?thesis by blast
    qed
  next
    case (noargs cls s inst)
    obtain k r where "new_object (get fe k) fe w cls [] = Some r"
      using new_object_terminates[OF ih' quiet total ctor_edges[OF noargs(1)] fr] by blast
    then have "get fe (Suc k) w n = Some r" using get_class_noargs[OF noargs, of fe k] by simp
    then show ?thesis by blast
  next
    case (factory f)
    have c0: "container c0 n = Some (FactoryDef (FuncV f))"
      using frame_factory[OF fr, of n "FuncV f"] factory(1) by simp
    have "gets (function_code fe f) \<subseteq> {a. (a, n) \<in> dep_graph fe c0} \<union> {a. container c0 a = None}"
      using c0 by (auto simp: dep_graph_def)
    moreover have "calls_only reads (function_code fe f)" using quiet
      by (simp add: registers_nothing_def every_script_def)
    moreover have "returns_by_itself (function_code fe f)" using total
      by (simp add: code_returns_def every_script_def)
    ultimately obtain k r where "run_script (get fe k) (function_code fe f) w = Some r"
      using run_script_terminates[OF ih' quiet _ _ _ fr] by blast
    then have "get fe (Suc k) w n = Some r" using get_factory[OF factory, of fe k] by simp
    then show ?thesis by blast
  next
    case other
    then have "\<exists>r. get_body fe (get fe 0) w n = Some r" by (rule get_body_other(2))
    then have "\<exists>r. get fe (Suc 0) w n = Some r" by simp
    then show ?thesis by blast
  qed
qed

subsection \<open>Resolution in the example container\<close>

lemma new_object_example:
  "new_object g example_code w cls vs
     = Some (Inr (Obj (length (heap w))), w\<lparr>heap := heap w @ [(cls, vs)]\<rparr>)"
  by (simp add: new_object_def allocate_def example_code_def)

lemma example_get_Ball:
  "get example_code (Suc k) (example_world\<lparr>heap := h\<rparr>) ''Ball''
     = Some (Inr (Obj (length h)), example_world\<lparr>heap := h @ [(Ball_class, [])]\<rparr>)"
proof -
  have "get example_code (Suc k) (example_world\<lparr>heap := h\<rparr>) ''Ball''
     = new_object (get example_code k) example_code (example_world\<lparr>heap := h\<rparr>) Ball_class []"
    by (rule get_class_noargs[where isSingleton = True and inst = None])
       (simp_all add: example_world_def example_registry example_no_prefix read_prop_def)
  then show ?thesis by (simp add: new_object_example)
qed



lemma example_get_CarName:
  "get example_code (Suc k) (example_world\<lparr>heap := h\<rparr>) ''CarName''
     = Some (Inr (Str ''Bobby Big Wheels''), example_world\<lparr>heap := h\<rparr>)"
proof -
  have "container (self (example_world\<lparr>heap := h\<rparr>)) ''CarName'' = Some (ConstantDef (Str ''Bobby Big Wheels''))"
    by (simp add: example_world_def example_registry)
  moreover have "\<not> hasNodeModulePrefix (self (example_world\<lparr>heap := h\<rparr>)) ''CarName''"
    by (simp add: example_world_def example_no_prefix)
  ultimately show ?thesis by (simp add: get_body_def)
qed

lemma example_car_factory:
  "function_code example_code 0 = Get ''CarName'' (rethrow (\<lambda>v. Alloc Car_class [v] Return))"
  by (simp add: example_code_def)

lemma example_run_car_factory:
  "run_script (get example_code (Suc k)) (function_code example_code 0) (example_world\<lparr>heap := h\<rparr>)
     = Some (Inr (Obj (length h)),
             example_world\<lparr>heap := h @ [(Car_class, [Str ''Bobby Big Wheels''])]\<rparr>)"
  unfolding example_car_factory
  by (simp add: example_get_CarName rethrow_def allocate_def del: get.simps)

lemma example_registers_nothing: "registers_nothing example_code"
  by (auto simp: registers_nothing_def every_script_def example_code_def rethrow_def
           split: sum.splits)

lemma example_code_returns: "code_returns example_code"
  by (auto simp: code_returns_def every_script_def example_code_def rethrow_def
           split: sum.splits)

subsection \<open>Singleton classes\<close>

lemma new_object_truthy: "new_object g fe w cls vs = Some (Inr v, w') \<Longrightarrow> truthy v"
proof -
  assume new: "new_object g fe w cls vs = Some (Inr v, w')"
  have t: "is_object u \<Longrightarrow> truthy u" for u by (cases u) simp_all
  obtain v0 where "v = (if is_object v0 then v0 else fst (allocate w cls vs))"
    using new
    by (auto simp: new_object_def case_prod_unfold Let_def split: option.splits sum.splits)
  then show ?thesis using t[of v0] by (auto simp: allocate_def)
qed

text \<open>
  Once a singleton class definition with a parameter list has been resolved to a value, every
  later call returns that value and changes nothing.
\<close>

lemma get_singleton_cached:
  assumes reg: "container (self w) n = Some (ClassDef (Some as) cls True inst)"
    and np: "\<not> hasNodeModulePrefix (self w) n"
    and g: "get fe (Suc k) w n = Some (Inr v, w')"
  shows "get fe (Suc k') w' n = Some (Inr v, w')"
proof (cases "truthy (read_prop inst)")
  case True
  then have "get fe (Suc k) w n = Some (Inr (read_prop inst), w)"
    using reg np by (intro get_cached)
  then have "v = read_prop inst" "w' = w" using g by simp_all
  then show ?thesis using True reg np by (simp del: get.simps add: get_cached)
next
  case False
  then have nc: "\<not> (True \<and> truthy (read_prop inst))" by simp
  note eq = get_class_args[OF reg np nc, of fe k]
  obtain vs w1 where ga: "get_args (get fe k) w as = Some (Inr vs, w1)"
    using g unfolding eq by (auto split: option.splits sum.splits prod.splits)
  obtain w2 where no: "new_object (get fe k) fe w1 cls vs = Some (Inr v, w2)"
    and w': "w' = set_container w2 n (ClassDef (Some as) cls True (Some v))"
    using g unfolding eq ga by (auto split: option.splits sum.splits prod.splits)
  have "keeps (self w) (self w')" using g by (rule get_keeps)
  then have "config (self w') = config (self w)" by (simp add: keeps_def)
  then have np': "\<not> hasNodeModulePrefix (self w') n"
    using np by (simp add: hasNodeModulePrefix_def)
  have reg': "container (self w') n = Some (ClassDef (Some as) cls True (Some v))"
    by (simp add: w' set_container_def)
  have "truthy v" using no by (rule new_object_truthy)
  then have "truthy (read_prop (Some v))" by (simp add: read_prop_def)
  then have "get fe (Suc k') w' n = Some (Inr (read_prop (Some v)), w')"
    using reg' np' by (intro get_cached)
  then show ?thesis by (simp add: read_prop_def)
qed

text \<open>
  C1. The class \<open>Ball\<close> of the README has no constructor parameters and no
  \<^verbatim>\<open>singleton\<close> property. \<open>addFile\<close> registers it as a singleton with
  \<^verbatim>\<open>args: null\<close>, and two calls of \<open>get\<close> in a row return two different objects: the
  branch of \<open>get\<close> for a definition without \<^verbatim>\<open>args\<close> constructs and returns, and does
  not write the \<^verbatim>\<open>instance\<close> field. \<^verbatim>\<open>args\<close> is \<^verbatim>\<open>null\<close> as well for a class
  that writes its empty parameter list out. For a singleton class with declared parameters
  the claim holds (\<open>get_singleton_cached\<close>).
\<close>

theorem singleton_without_parameters_not_cached:
  "container (self example_world) ''Ball'' = Some (ClassDef None Ball_class True None) \<and>
   get example_code (Suc 0) example_world ''Ball''
     = Some (Inr (Obj 0), example_world\<lparr>heap := [(Ball_class, [])]\<rparr>) \<and>
   get example_code (Suc 0) (example_world\<lparr>heap := [(Ball_class, [])]\<rparr>) ''Ball''
     = Some (Inr (Obj 1), example_world\<lparr>heap := [(Ball_class, []), (Ball_class, [])]\<rparr>) \<and>
   Obj 0 \<noteq> Obj 1 \<and>
   getFunctionArgs (source Cat_class) = None"
proof -
  have w: "example_world\<lparr>heap := []\<rparr> = example_world" by (simp add: example_world_def)
  have "container (self example_world) ''Ball'' = Some (ClassDef None Ball_class True None)"
    by (simp add: example_world_def example_registry)
  then show ?thesis
    using example_get_Ball[of 0 "[]"] example_get_Ball[of 0 "[(Ball_class, [])]"]
    by (simp add: w getFunctionArgs_Cat del: get.simps)
qed

text \<open>
  C2. With \<^verbatim>\<open>$\<close> configured as the prefix of external modules and a provider that has
  the module \<^verbatim>\<open>bcrypt\<close>, \<open>get\<close> leaves \<^verbatim>\<open>$bcrypt\<close> to the external modules with
  the prefix still on it: it asks for \<^verbatim>\<open>$bcrypt\<close>, which none of the three forms of the
  name finds, and fails. With the option under the name that the constructor and the
  README give it, \<^verbatim>\<open>npmPrefix\<close>, no prefix is configured for \<open>get\<close>; the name
  reaches the external modules because it is not registered, and fails in the same way.
\<close>

theorem prefixed_name_not_stripped:
  "hasNodeModulePrefix (self prefixed_world) ''$bcrypt'' \<and>
   node_modules prefixed_world ''bcrypt'' = Some (ModuleV ''bcrypt'') \<and>
   get example_code (Suc 0) prefixed_world ''$bcrypt''
     = Some (getNodeModule prefixed_world ''$bcrypt'', prefixed_world) \<and>
   getNodeModule prefixed_world ''$bcrypt'' = Inl (ExternalModuleNotFoundError ''$bcrypt'') \<and>
   \<not> hasNodeModulePrefix (self npmPrefix_world) ''$bcrypt'' \<and>
   get example_code (Suc 0) npmPrefix_world ''$bcrypt''
     = Some (Inl (ExternalModuleNotFoundError ''$bcrypt''), npmPrefix_world)"
proof -
  have np: "\<not> hasNodeModulePrefix (self npmPrefix_world) ''$bcrypt''"
    by (simp add: npmPrefix_world_def create_def no_config_def hasNodeModulePrefix_def)
  have nh: "\<not> has (self npmPrefix_world) ''$bcrypt''"
    by (simp add: npmPrefix_world_def create_def no_config_def has_def lookup_def Object_prototype_def)
  have nm: "node_modules npmPrefix_world ''$bcrypt'' = None"
    by (simp add: npmPrefix_world_def example_modules_def)
  have p: "hasNodeModulePrefix (self prefixed_world) ''$bcrypt''"
    by (simp add: prefixed_world_def create_def no_config_def hasNodeModulePrefix_def startsWith_def)
  have k: "kebabCase ''$bcrypt'' = ''$bcrypt''"
    by (rule kebabCase_plain) (simp add: upper_or_digit_def)
  have d: "dotCase ''$bcrypt'' = ''$bcrypt''"
    by (simp add: dotCase_def)
  have m: "node_modules prefixed_world ''$bcrypt'' = None"
    "node_modules prefixed_world ''bcrypt'' = Some (ModuleV ''bcrypt'')"
    by (simp_all add: prefixed_world_def example_modules_def)
  have "getNodeModule npmPrefix_world ''$bcrypt'' = Inl (ExternalModuleNotFoundError ''$bcrypt'')"
    unfolding getNodeModule_def k d Let_def by (simp add: nodeModuleExists_def nm)
  then have g: "get example_code (Suc 0) npmPrefix_world ''$bcrypt''
     = Some (Inl (ExternalModuleNotFoundError ''$bcrypt''), npmPrefix_world)"
    using nh get_external[of npmPrefix_world "''$bcrypt''" example_code 0] by (simp del: get.simps)
  have "getNodeModule prefixed_world ''$bcrypt'' = Inl (ExternalModuleNotFoundError ''$bcrypt'')"
    unfolding getNodeModule_def k d Let_def by (simp add: nodeModuleExists_def m)
  then show ?thesis
    using p m(2) np g get_external[of prefixed_world "''$bcrypt''" example_code 0]
    by (simp del: get.simps)
qed

subsection \<open>Factories\<close>

lemma prefixed_factory_registry:
  "container (self prefixed_factory_world) =
     [''CarName'' \<mapsto> ConstantDef (Str ''Bobby Big Wheels''), ''$car'' \<mapsto> FactoryDef (FuncV 0)]"
  by (simp add: prefixed_factory_world_def prefixed_world_def create_def no_config_def
        addFactory_def addConstant_def setDependency_def lookup_def Object_prototype_def)

lemma prefixed_factory_config:
  "nodeModulePrefix (config (self prefixed_factory_world)) = Some ''$''"
  by (simp add: prefixed_factory_world_def addFactory_def addConstant_def config_setDependency
        prefixed_world_def create_def no_config_def)

text \<open>
  C6, as stated, fails where the name of the factory starts with the configured prefix of
  external modules: the first test of \<open>get\<close> sends such a name to the external
  modules, and the factory registered under it, which would return a new car, is not run.
\<close>

theorem prefixed_factory_not_invoked:
  "container (self prefixed_factory_world) ''$car'' = Some (FactoryDef (FuncV 0)) \<and>
   get example_code (Suc (Suc 0)) prefixed_factory_world ''$car''
     = Some (Inl (ExternalModuleNotFoundError ''$car''), prefixed_factory_world) \<and>
   run_script (get example_code (Suc 0)) (function_code example_code 0) prefixed_factory_world
     = Some (Inr (Obj 0),
             prefixed_factory_world\<lparr>heap := [(Car_class, [Str ''Bobby Big Wheels''])]\<rparr>)"
proof -
  have reg: "container (self prefixed_factory_world) ''$car'' = Some (FactoryDef (FuncV 0))"
    by (simp add: prefixed_factory_registry)
  have p: "hasNodeModulePrefix (self prefixed_factory_world) ''$car''"
    by (simp add: prefixed_factory_config hasNodeModulePrefix_def startsWith_def)
  have k: "kebabCase ''$car'' = ''$car''"
    by (rule kebabCase_plain) (simp add: upper_or_digit_def)
  have d: "dotCase ''$car'' = ''$car''"
    by (simp add: dotCase_def)
  have m: "node_modules prefixed_factory_world ''$car'' = None"
    by (simp add: prefixed_factory_world_def prefixed_world_def example_modules_def)
  have "getNodeModule prefixed_factory_world ''$car'' = Inl (ExternalModuleNotFoundError ''$car'')"
    unfolding getNodeModule_def k d Let_def by (simp add: nodeModuleExists_def m)
  then have g: "get example_code (Suc (Suc 0)) prefixed_factory_world ''$car''
     = Some (Inl (ExternalModuleNotFoundError ''$car''), prefixed_factory_world)"
    using p get_external[of prefixed_factory_world "''$car''" example_code "Suc 0"]
    by (simp del: get.simps)
  have h: "heap prefixed_factory_world = []"
    by (simp add: prefixed_factory_world_def prefixed_world_def)
  have np: "\<not> hasNodeModulePrefix (self prefixed_factory_world) ''CarName''"
    by (simp add: prefixed_factory_config hasNodeModulePrefix_def startsWith_def)
  have cn: "get example_code (Suc 0) prefixed_factory_world ''CarName''
              = Some (Inr (Str ''Bobby Big Wheels''), prefixed_factory_world)"
    using np by (simp add: prefixed_factory_registry get_body_def)
  have r: "run_script (get example_code (Suc 0)) (function_code example_code 0) prefixed_factory_world
     = Some (Inr (Obj 0),
             prefixed_factory_world\<lparr>heap := [(Car_class, [Str ''Bobby Big Wheels''])]\<rparr>)"
    unfolding example_car_factory by (simp add: cn rethrow_def allocate_def h del: get.simps)
  show ?thesis using reg g r by (simp del: get.simps)
qed

lemma keeps_factory:
  "keeps c c' \<Longrightarrow> container c n = Some (FactoryDef fac) \<Longrightarrow> container c' n = Some (FactoryDef fac)"
  unfolding keeps_def unchanged_or_cached_def
  by (metis dependency.distinct(5) option.distinct(1) option.inject)

text \<open>
  C6, amended. For a name that is registered as a factory and does not start with a
  configured prefix of external modules, \<open>get\<close> is the run of that factory's code against
  the container: the same result and the same world, or no return where the code does not
  return. When the call has returned, the name is still registered as that factory and the
  next call runs the code again: \<open>get\<close> itself stores nothing. If every value that the
  code returns is an object allocated during that run, two calls in a row that return values
  return two different objects.
\<close>

theorem get_factory_not_cached:
  "container (self w) n = Some (FactoryDef (FuncV f)) \<Longrightarrow> \<not> hasNodeModulePrefix (self w) n \<Longrightarrow>
   get fe (Suc k) w n = run_script (get fe k) (function_code fe f) w \<and>
   (\<forall>r1 w1. get fe (Suc k) w n = Some (r1, w1) \<longrightarrow>
      container (self w1) n = Some (FactoryDef (FuncV f)) \<and>
      get fe (Suc k) w1 n = run_script (get fe k) (function_code fe f) w1 \<and>
      ((\<forall>u v u'. run_script (get fe k) (function_code fe f) u = Some (Inr v, u') \<longrightarrow>
            (\<exists>a. v = Obj a \<and> length (heap u) \<le> a \<and> a < length (heap u')))
       \<longrightarrow> (\<forall>v1 v2 w2. r1 = Inr v1 \<longrightarrow> get fe (Suc k) w1 n = Some (Inr v2, w2) \<longrightarrow> v1 \<noteq> v2)))"
proof (intro conjI allI impI)
  assume reg: "container (self w) n = Some (FactoryDef (FuncV f))"
    and np: "\<not> hasNodeModulePrefix (self w) n"
  show first: "get fe (Suc k) w n = run_script (get fe k) (function_code fe f) w"
    using reg np by (rule get_factory)
  fix r1 w1
  assume g1: "get fe (Suc k) w n = Some (r1, w1)"
  have kp: "keeps (self w) (self w1)" using g1 by (rule get_keeps)
  show reg1: "container (self w1) n = Some (FactoryDef (FuncV f))"
    using kp reg by (rule keeps_factory)
  have "config (self w1) = config (self w)" using kp by (simp add: keeps_def)
  then have np1: "\<not> hasNodeModulePrefix (self w1) n"
    using np by (simp add: hasNodeModulePrefix_def)
  show second: "get fe (Suc k) w1 n = run_script (get fe k) (function_code fe f) w1"
    using reg1 np1 by (rule get_factory)
  fix v1 v2 w2
  assume fresh: "\<forall>u v u'. run_script (get fe k) (function_code fe f) u = Some (Inr v, u') \<longrightarrow>
            (\<exists>a. v = Obj a \<and> length (heap u) \<le> a \<and> a < length (heap u'))"
    and r1: "r1 = Inr v1" and g2: "get fe (Suc k) w1 n = Some (Inr v2, w2)"
  have "run_script (get fe k) (function_code fe f) w = Some (Inr v1, w1)" using g1 r1 first by simp
  then obtain a1 where a1: "v1 = Obj a1" "a1 < length (heap w1)" using fresh by blast
  have "run_script (get fe k) (function_code fe f) w1 = Some (Inr v2, w2)" using g2 second by simp
  then obtain a2 where a2: "v2 = Obj a2" "length (heap w1) \<le> a2" using fresh by blast
  show "v1 \<noteq> v2" using a1 a2 by simp
qed

theorem get_factory_not_cached_witness:
  "container (self example_world) ''Car'' = Some (FactoryDef (FuncV 0)) \<and>
   \<not> hasNodeModulePrefix (self example_world) ''Car'' \<and>
   get example_code (Suc (Suc 0)) example_world ''Car''
     = Some (Inr (Obj 0), example_world\<lparr>heap := [(Car_class, [Str ''Bobby Big Wheels''])]\<rparr>) \<and>
   get example_code (Suc (Suc 0)) (example_world\<lparr>heap := [(Car_class, [Str ''Bobby Big Wheels''])]\<rparr>) ''Car''
     = Some (Inr (Obj 1),
             example_world\<lparr>heap := [(Car_class, [Str ''Bobby Big Wheels'']),
                                      (Car_class, [Str ''Bobby Big Wheels''])]\<rparr>) \<and>
   Obj 0 \<noteq> Obj 1"
proof -
  let ?w1 = "example_world\<lparr>heap := [(Car_class, [Str ''Bobby Big Wheels''])]\<rparr>"
  have w: "example_world\<lparr>heap := []\<rparr> = example_world" by (simp add: example_world_def)
  have reg: "container (self example_world) ''Car'' = Some (FactoryDef (FuncV 0))"
    by (simp add: example_world_def example_registry)
  have np: "\<not> hasNodeModulePrefix (self example_world) ''Car''"
    by (simp add: example_world_def example_no_prefix)
  have r0: "run_script (get example_code (Suc 0)) (function_code example_code 0) example_world
              = Some (Inr (Obj 0), ?w1)"
    using example_run_car_factory[of 0 "[]"] by (simp add: w del: get.simps)
  have r1: "run_script (get example_code (Suc 0)) (function_code example_code 0) ?w1
              = Some (Inr (Obj 1),
                  example_world\<lparr>heap := [(Car_class, [Str ''Bobby Big Wheels'']),
                                           (Car_class, [Str ''Bobby Big Wheels''])]\<rparr>)"
    using example_run_car_factory[of 0 "[(Car_class, [Str ''Bobby Big Wheels''])]"]
    by (simp del: get.simps)
  note t = get_factory_not_cached [OF reg np, of example_code "Suc 0"]
  have g0: "get example_code (Suc (Suc 0)) example_world ''Car'' = Some (Inr (Obj 0), ?w1)"
    using t r0 by (simp del: get.simps)
  have g1: "get example_code (Suc (Suc 0)) ?w1 ''Car''
              = run_script (get example_code (Suc 0)) (function_code example_code 0) ?w1"
    using t g0 by blast
  show ?thesis using reg np g0 g1 r1 by (simp del: get.simps)
qed


subsection \<open>The frame of resolution\<close>






subsection \<open>Termination\<close>

text \<open>
  The container of the class \<^verbatim>\<open>Chicken\<close>, whose constructor declares \<^verbatim>\<open>Egg\<close>, and
  of the factory \<^verbatim>\<open>Egg\<close>, which resolves \<^verbatim>\<open>Chicken\<close>.
\<close>

lemma chicken_registry:
  "container (self chicken_world) =
     [''Chicken'' \<mapsto> ClassDef (Some [''Egg'']) Chicken_class True None,
      ''Egg'' \<mapsto> FactoryDef (FuncV 2)]"
proof -
  have a: "getFunctionArgs (source Chicken_class) = Some [''Egg'']" by code_simp
  have n: "name Chicken_class = ''Chicken''" by (simp add: Chicken_class_def)
  show ?thesis
    by (simp add: chicken_world_def create_def no_config_def addFile_def exported_class_def
        addClassDefinition_def class_depName_def createDepName_def a n addFactory_def
        setDependency_def lookup_def Object_prototype_def Let_def read_prop_def)
qed

lemma chicken_no_prefix: "\<not> hasNodeModulePrefix (self chicken_world) n"
  by (simp add: chicken_world_def addFactory_def config_setDependency config_addFile
        create_def no_config_def hasNodeModulePrefix_def)

lemma chicken_never_returns:
  "get example_code k chicken_world ''Chicken'' = None \<and>
   get example_code k chicken_world ''Egg'' = None"
proof (induction k)
  case 0
  show ?case by simp
next
  case (Suc k)
  have c: "function_code example_code 2 = Get ''Chicken'' (rethrow Return)"
    by (simp add: example_code_def)
  have regC: "container (self chicken_world) ''Chicken''
                = Some (ClassDef (Some [''Egg'']) Chicken_class True None)"
    by (simp add: chicken_registry)
  have regE: "container (self chicken_world) ''Egg'' = Some (FactoryDef (FuncV 2))"
    by (simp add: chicken_registry)
  have nc: "\<not> (True \<and> truthy (read_prop None))" by (simp add: read_prop_def)
  have "get_args (get example_code k) chicken_world [''Egg''] = None"
    using Suc by (simp del: get.simps)
  then have 1: "get example_code (Suc k) chicken_world ''Chicken'' = None"
    unfolding get_class_args[OF regC chicken_no_prefix nc, of example_code k] by simp
  have 2: "get example_code (Suc k) chicken_world ''Egg'' = None"
    unfolding get_factory[OF regE chicken_no_prefix, of example_code k] c
    using Suc by (simp del: get.simps)
  show ?case using 1 2 by simp
qed

text \<open>
  C10, as stated, fails where a factory resolves a class that takes the factory as a
  parameter: the graph of the class definitions has the single pair of the class and its
  parameter and is acyclic, and no depth is enough for \<open>get\<close> to return.
\<close>

theorem class_graph_acyclic_get_diverges:
  "finite (dom (container (self chicken_world))) \<and>
   class_graph (self chicken_world) = {(''Egg'', ''Chicken'')} \<and>
   acyclic (class_graph (self chicken_world)) \<and>
   (\<forall>k. get example_code k chicken_world ''Chicken'' = None)"
proof -
  have fin: "finite (dom (container (self chicken_world)))"
    by (simp add: chicken_registry)
  have cg: "class_graph (self chicken_world) = {(''Egg'', ''Chicken'')}"
    unfolding class_graph_def chicken_registry by (auto split: if_splits)
  have "acyclic ({} :: (string \<times> string) set)" by (simp add: acyclic_def)
  then have "acyclic {(''Egg'', ''Chicken'')}" by simp
  then show ?thesis using fin cg chicken_never_returns by simp
qed

text \<open>
  The same with a constructor in the place of the factory: the class \<^verbatim>\<open>Twin\<close> is handed
  the container and its constructor resolves \<^verbatim>\<open>Twin\<close>. The graph of the class
  definitions is acyclic, the graph with the caller's code in it has a loop at the class,
  and no depth is enough.
\<close>

lemma twin_registry:
  "container (self twin_world) =
     [''Twin'' \<mapsto> ClassDef (Some [''Pool'']) Twin_class True None,
      ''Pool'' \<mapsto> ConstantDef ContainerV]"
proof -
  have a: "getFunctionArgs (source Twin_class) = Some [''Pool'']" by code_simp
  have n: "name Twin_class = ''Twin''" by (simp add: Twin_class_def)
  show ?thesis
    by (simp add: twin_world_def create_def no_config_def addFile_def exported_class_def
        addClassDefinition_def class_depName_def createDepName_def a n addConstant_def
        setDependency_def lookup_def Object_prototype_def Let_def read_prop_def)
qed

lemma twin_no_prefix: "\<not> hasNodeModulePrefix (self twin_world) n"
  by (simp add: twin_world_def addConstant_def config_setDependency config_addFile
        create_def no_config_def hasNodeModulePrefix_def)

lemma twin_never_returns:
  "get twin_code k (twin_world\<lparr>heap := h\<rparr>) ''Twin'' = None"
proof (induction k arbitrary: h)
  case 0
  show ?case by simp
next
  case (Suc k)
  let ?w = "twin_world\<lparr>heap := h\<rparr>"
  have reg: "container (self ?w) ''Twin'' = Some (ClassDef (Some [''Pool'']) Twin_class True None)"
    by (simp add: twin_registry)
  have np: "\<not> hasNodeModulePrefix (self ?w) ''Twin''" by (simp add: twin_no_prefix)
  have nc: "\<not> (True \<and> truthy (read_prop None))" by (simp add: read_prop_def)
  note eq = get_class_args[OF reg np nc, of twin_code k]
  show ?case
  proof (cases k)
    case 0
    then show ?thesis unfolding eq by simp
  next
    case (Suc j)
    have pool: "get twin_code k ?w ''Pool'' = Some (Inr ContainerV, ?w)"
      unfolding Suc by (simp add: get_body_def twin_registry twin_no_prefix)
    have ga: "get_args (get twin_code k) ?w [''Pool''] = Some (Inr [ContainerV], ?w)"
      using pool by (simp del: get.simps)
    have c: "constructor_code twin_code Twin_class this vs
               = Get ''Twin'' (rethrow (\<lambda>v. Return Undefined))" for this vs
      by (simp add: twin_code_def)
    have "new_object (get twin_code k) twin_code ?w Twin_class [ContainerV] = None"
      unfolding new_object_def c using Suc.IH[of "h @ [(Twin_class, [ContainerV])]"]
      by (simp add: allocate_def del: get.simps)
    then show ?thesis unfolding eq ga by simp
  qed
qed

lemma constructor_resolving_its_class:
  "class_graph (self twin_world) = {(''Pool'', ''Twin'')} \<and>
   (''Twin'', ''Twin'') \<in> dep_graph twin_code (self twin_world) \<and>
   (\<forall>k. get twin_code k twin_world ''Twin'' = None)"
proof -
  have w: "twin_world\<lparr>heap := []\<rparr> = twin_world" by (simp add: twin_world_def)
  have cg: "class_graph (self twin_world) = {(''Pool'', ''Twin'')}"
    unfolding class_graph_def twin_registry by (auto split: if_splits)
  have "''Twin'' \<in> gets (constructor_code twin_code Twin_class Undefined [])"
    by (simp add: twin_code_def)
  then have "(''Twin'', ''Twin'') \<in> dep_graph twin_code (self twin_world)"
    unfolding dep_graph_def twin_registry by auto
  then show ?thesis using cg twin_never_returns[of _ "[]"] by (simp add: w)
qed

text \<open>
  C10, amended. Let the registry be finite and no debug sink be set, let no factory and no
  constructor call a registering method of the container, let each of them return whenever its calls of
  \<^verbatim>\<open>get\<close> do, and let the graph be acyclic that has, next to the pairs of the class
  definitions, a pair for every registered factory or class and every registered name that
  the code of the factory or of the constructor may resolve. Then for every name there is a
  depth from which on \<open>get\<close> returns, and always the same: a value or an error, with the
  world after the call.
\<close>

theorem get_terminates:
  "finite (dom (container (self w))) \<Longrightarrow> \<not> debug (config (self w)) \<Longrightarrow>
   registers_nothing fe \<Longrightarrow> code_returns fe \<Longrightarrow>
   acyclic (dep_graph fe (self w)) \<Longrightarrow>
   \<exists>k r. \<forall>k' \<ge> k. get fe k' w n = Some r"
proof -
  assume fin: "finite (dom (container (self w)))" and acyc: "acyclic (dep_graph fe (self w))"
    and quiet: "registers_nothing fe" and total: "code_returns fe"
  have "dep_graph fe (self w) \<subseteq> dom (container (self w)) \<times> dom (container (self w))"
    by (auto simp: dep_graph_def class_graph_def)
  then have "finite (dep_graph fe (self w))"
    using fin by (meson finite_SigmaI finite_subset)
  then have "wf (dep_graph fe (self w))" using acyc by (rule finite_acyclic_wf)
  then obtain k r where "get fe k w n = Some r"
    using get_terminates_wf[OF _ quiet total frame_refl] by blast
  then have "\<forall>k' \<ge> k. get fe k' w n = Some r" by (blast intro: get_fuel_mono)
  then show ?thesis by blast
qed

lemma example_car_factory_gets: "gets (function_code example_code 0) = {''CarName''}"
proof -
  have "gets (rethrow (\<lambda>v. Alloc Car_class [v] Return) r) = {}" for r
    by (cases r) (simp_all add: rethrow_def)
  then show ?thesis by (simp add: example_car_factory)
qed

lemma example_dep_graph:
  "dep_graph example_code example_container \<subseteq> {(''Ball'', ''Dog''), (''CarName'', ''Car'')}"
proof
  fix e assume "e \<in> dep_graph example_code example_container"
  then consider (cls) a n as cls s inst where "e = (a, n)"
      "container example_container n = Some (ClassDef (Some as) cls s inst)"
      "a \<in> set as" "container example_container a \<noteq> None"
    | (fac) a n f where "e = (a, n)"
      "container example_container n = Some (FactoryDef (FuncV f))"
      "a \<in> gets (function_code example_code f)"
    | (ctor) a cls this vs where "a \<in> gets (constructor_code example_code cls this vs)"
    by (auto simp: dep_graph_def class_graph_def)
  then show "e \<in> {(''Ball'', ''Dog''), (''CarName'', ''Car'')}"
  proof cases
    case cls
    have n: "n = ''Dog'' \<and> as = [''Ball'', ''socketIo'']"
      using cls(2) unfolding example_registry by (simp split: if_splits)
    then have "a = ''Ball'' \<or> a = ''socketIo''" using cls(3) by simp
    moreover have "container example_container ''socketIo'' = None"
      by (simp add: example_registry)
    ultimately have "a = ''Ball''" using cls(4) by auto
    then show ?thesis using cls(1) n by simp
  next
    case fac
    have n: "n = ''Car'' \<and> f = 0"
      using fac(2) unfolding example_registry by (simp split: if_splits)
    then have "a = ''CarName''" using fac(3) by (simp add: example_car_factory_gets)
    then show ?thesis using fac(1) n by simp
  next
    case ctor
    then show ?thesis by (simp add: example_code_def)
  qed
qed

theorem get_terminates_witness:
  "finite (dom (container (self example_world))) \<and> \<not> debug (config (self example_world)) \<and>
   registers_nothing example_code \<and> code_returns example_code \<and>
   acyclic (dep_graph example_code (self example_world)) \<and>
   (\<exists>k r. \<forall>k' \<ge> k. get example_code k' example_world ''Car'' = Some r)"
proof -
  have fin: "finite (dom (container (self example_world)))"
    by (simp add: example_world_def example_registry)
  have "acyclic {(''Ball'', ''Dog''), (''CarName'', ''Car'')}"
    by (rule acyclicI_order[where f = "\<lambda>s. if s = ''Dog'' \<or> s = ''Car'' then 0 else (1::nat)"]) auto
  then have "acyclic (dep_graph example_code example_container)"
    using example_dep_graph by (rule acyclic_subset)
  then have acyc: "acyclic (dep_graph example_code (self example_world))"
    by (simp add: example_world_def)
  have nd: "\<not> debug (config (self example_world))"
    by (simp add: example_world_def example_config create_def no_config_def)
  show ?thesis
    using fin nd acyc example_registers_nothing example_code_returns
      get_terminates [OF fin nd example_registers_nothing example_code_returns acyc, of "''Car''"]
    by blast
qed

end
